theory Spec2Isabelle
  imports
    Complex_Main
    "HOL-Library.Char_ord"
    "HOL-Library.List_Lexorder"
    "HOL-Library.Product_Lexorder"
begin

section \<open>JSON values as the two scripts see them\<close>

text \<open>
  Both scripts work on what \<^verbatim>\<open>json.loads\<close> returns: \<^verbatim>\<open>None\<close>, booleans, integers,
  floats, strings, lists and dicts. A dict is an association list in insertion order
  (\<^verbatim>\<open>json.loads\<close> never returns two entries with one key); lookups go through
  \<^const>\<open>map_of\<close>. A string is a list of code points below 256, compared by code point as
  Python compares \<^verbatim>\<open>str\<close>. Floats carry a real number: NaN and the infinities are
  not represented, and no function below computes with a float.
\<close>

datatype json =
    JNull
  | JBool bool
  | JInt int
  | JFloat real
  | JStr string
  | JArr "json list"
  | JObj "(string \<times> json) list"

text \<open>The exceptions that the scripts can raise and do not catch.\<close>

datatype py_error =
    KeyError
  | TypeError
  | AttributeError
  | IndexError
  | ValueError
  | TransportError

text \<open>\<^verbatim>\<open>v[key]\<close> with a string key: a dict looks the key up (KeyError when absent); lists,
  strings, numbers, booleans and \<^verbatim>\<open>None\<close> raise TypeError.\<close>

fun py_getitem :: "json \<Rightarrow> string \<Rightarrow> py_error + json" where
  "py_getitem (JObj kvs) key = (case map_of kvs key of None \<Rightarrow> Inl KeyError | Some v \<Rightarrow> Inr v)"
| "py_getitem v key = Inl TypeError"

text \<open>Lists and dicts are unhashable: using one as a set element or testing it for
  membership in a set raises TypeError.\<close>

fun hashable :: "json \<Rightarrow> bool" where
  "hashable (JArr xs) = False"
| "hashable (JObj kvs) = False"
| "hashable v = True"

text \<open>Python's \<^verbatim>\<open>==\<close> on hashable JSON values: booleans, integers and floats compare by
  numeric value (\<^verbatim>\<open>True == 1 == 1.0\<close>); everything else compares structurally.\<close>

fun num_val :: "json \<Rightarrow> real option" where
  "num_val (JBool b) = Some (if b then 1 else 0)"
| "num_val (JInt i) = Some (of_int i)"
| "num_val (JFloat r) = Some r"
| "num_val v = None"

definition py_eq :: "json \<Rightarrow> json \<Rightarrow> bool" where
  "py_eq a b =
     (case (num_val a, num_val b) of
        (Some x, Some y) \<Rightarrow> x = y
      | (None, None) \<Rightarrow> a = b
      | _ \<Rightarrow> False)"

text \<open>Assignment \<^verbatim>\<open>d[key] = v\<close> on a dict: an existing key keeps its position.\<close>

fun dict_set :: "(string \<times> json) list \<Rightarrow> string \<Rightarrow> json \<Rightarrow> (string \<times> json) list" where
  "dict_set [] key v = [(key, v)]"
| "dict_set ((k, x) # kvs) key v =
     (if k = key then (k, v) # kvs else (k, x) # dict_set kvs key v)"

section \<open>insert-versions.py: schema validation\<close>

text \<open>The two module constants are Python sets; the lists below enumerate their elements.\<close>

definition REQUIRED_ARTIFACT_KEYS :: "string list" where
  "REQUIRED_ARTIFACT_KEYS = [''platform'', ''variant'', ''url'', ''archive_format'', ''sha256'']"

definition VALID_ARCHIVE_FORMATS :: "string list" where
  "VALID_ARCHIVE_FORMATS = [''tar.gz'', ''tar.zst'', ''zip'']"

text \<open>
  One constructor per message that \<^verbatim>\<open>validate_version\<close> appends to \<^verbatim>\<open>errors\<close>; the
  arguments are the values that the f-string formats: the artifact's index, the sorted
  list of missing keys, the offending \<^verbatim>\<open>archive_format\<close> value.
\<close>

datatype violation =
    MissingVersion
  | MissingDate
  | MissingArtifacts
  | NotAnObject nat
  | MissingKeys nat "string list"
  | InvalidArchiveFormat nat json

text \<open>\<^verbatim>\<open>isinstance(x, str) and x\<close> for the result of \<^verbatim>\<open>entry.get(key)\<close>.\<close>

fun nonempty_str :: "json option \<Rightarrow> bool" where
  "nonempty_str (Some (JStr s)) = (s \<noteq> [])"
| "nonempty_str v = False"

text \<open>\<^verbatim>\<open>REQUIRED_ARTIFACT_KEYS - artifact.keys()\<close>, then \<^verbatim>\<open>sorted(missing)\<close>.\<close>

definition missing_keys :: "(string \<times> json) list \<Rightarrow> string list" where
  "missing_keys artifact = filter (\<lambda>k. map_of artifact k = None) REQUIRED_ARTIFACT_KEYS"

text \<open>
  The body of the loop \<^verbatim>\<open>for i, artifact in enumerate(artifacts)\<close>: the messages that
  one iteration appends to \<^verbatim>\<open>errors\<close> (none or one; each \<^verbatim>\<open>continue\<close> ends the
  iteration after its message). The membership test \<^verbatim>\<open>not in VALID_ARCHIVE_FORMATS\<close>
  hashes its left operand, so a list or dict there raises TypeError.
\<close>

fun check_artifact :: "nat \<Rightarrow> json \<Rightarrow> py_error + violation list" where
  "check_artifact i (JObj artifact) =
     (let missing = missing_keys artifact in
      if missing \<noteq> [] then Inr [MissingKeys i (sort missing)]
      else
        (case map_of artifact ''archive_format'' of
           None \<Rightarrow> Inl KeyError
         | Some fmt \<Rightarrow>
             if \<not> hashable fmt then Inl TypeError
             else if list_ex (py_eq fmt) (map JStr VALID_ARCHIVE_FORMATS) then Inr []
             else Inr [InvalidArchiveFormat i fmt]))"
| "check_artifact i artifact = Inr [NotAnObject i]"

text \<open>The loop itself, with \<^verbatim>\<open>errors\<close> as the accumulator; an exception ends it.\<close>

fun validate_artifacts :: "nat \<Rightarrow> json list \<Rightarrow> violation list \<Rightarrow> py_error + violation list" where
  "validate_artifacts i [] errors = Inr errors"
| "validate_artifacts i (artifact # rest) errors =
     (case check_artifact i artifact of
        Inl e \<Rightarrow> Inl e
      | Inr msgs \<Rightarrow> validate_artifacts (Suc i) rest (errors @ msgs))"

text \<open>\<^verbatim>\<open>validate_version\<close>. \<^verbatim>\<open>entry.get\<close> exists only on a dict: any other JSON value
  raises AttributeError.\<close>

fun validate_version :: "json \<Rightarrow> py_error + violation list" where
  "validate_version (JObj entry) =
     (let errors = [];
          errors = (if \<not> nonempty_str (map_of entry ''version'')
                    then errors @ [MissingVersion] else errors);
          errors = (if \<not> nonempty_str (map_of entry ''date'')
                    then errors @ [MissingDate] else errors)
      in case map_of entry ''artifacts'' of
           Some (JArr (a # artifacts)) \<Rightarrow> validate_artifacts 0 (a # artifacts) errors
         | _ \<Rightarrow> Inr (errors @ [MissingArtifacts]))"
| "validate_version entry = Inl AttributeError"

section \<open>insert-versions.py: sorting, deduplication and the ledger file\<close>

text \<open>
  The key of the artifact sort, \<^verbatim>\<open>lambda a: (a["platform"], a["variant"])\<close>;
  \<^verbatim>\<open>list.sort\<close> computes the keys of all elements before it compares any.
\<close>

fun sort_keys :: "json list \<Rightarrow> py_error + (json \<times> json) list" where
  "sort_keys [] = Inr []"
| "sort_keys (a # rest) =
     (case py_getitem a ''platform'' of
        Inl e \<Rightarrow> Inl e
      | Inr p \<Rightarrow>
          (case py_getitem a ''variant'' of
             Inl e \<Rightarrow> Inl e
           | Inr v \<Rightarrow>
               (case sort_keys rest of
                  Inl e \<Rightarrow> Inl e
                | Inr ks \<Rightarrow> Inr ((p, v) # ks))))"

fun str_key :: "json \<times> json \<Rightarrow> (string \<times> string) option" where
  "str_key (JStr p, JStr v) = Some (p, v)"
| "str_key k = None"

fun str_keys :: "(json \<times> json) list \<Rightarrow> (string \<times> string) list option" where
  "str_keys [] = Some []"
| "str_keys (k # ks) =
     (case str_key k of
        None \<Rightarrow> None
      | Some sk \<Rightarrow> (case str_keys ks of None \<Rightarrow> None | Some sks \<Rightarrow> Some (sk # sks)))"

text \<open>
  \<^verbatim>\<open>artifacts.sort(key=...)\<close>. When every key is a pair of strings the comparison is
  total (tuples compare lexicographically, strings by code point) and the result is the
  stable sort by key. With any other key the comparisons that CPython's sort performs,
  and so whether it raises TypeError, depend on the interpreter's algorithm: that case
  is the parameter \<open>sort_other\<close>, about which nothing is assumed.
\<close>

definition sort_artifacts ::
  "(json list \<Rightarrow> py_error + json list) \<Rightarrow> json list \<Rightarrow> py_error + json list" where
  "sort_artifacts sort_other artifacts =
     (case sort_keys artifacts of
        Inl e \<Rightarrow> Inl e
      | Inr ks \<Rightarrow>
          (case str_keys ks of
             None \<Rightarrow> sort_other artifacts
           | Some sks \<Rightarrow> Inr (map snd (sort_key fst (zip sks artifacts)))))"

text \<open>\<^verbatim>\<open>version["artifacts"].sort(...)\<close> for one record: the list is sorted in place, the
  record's other entries stay as they are. Only a list has \<^verbatim>\<open>sort\<close>.\<close>

fun sort_version :: "(json list \<Rightarrow> py_error + json list) \<Rightarrow> json \<Rightarrow> py_error + json" where
  "sort_version sort_other (JObj version) =
     (case map_of version ''artifacts'' of
        None \<Rightarrow> Inl KeyError
      | Some (JArr artifacts) \<Rightarrow>
          (case sort_artifacts sort_other artifacts of
             Inl e \<Rightarrow> Inl e
           | Inr sorted_artifacts \<Rightarrow>
               Inr (JObj (dict_set version ''artifacts'' (JArr sorted_artifacts))))
      | Some other \<Rightarrow> Inl AttributeError)"
| "sort_version sort_other version = Inl TypeError"

fun sort_versions ::
  "(json list \<Rightarrow> py_error + json list) \<Rightarrow> json list \<Rightarrow> py_error + json list" where
  "sort_versions sort_other [] = Inr []"
| "sort_versions sort_other (version # rest) =
     (case sort_version sort_other version of
        Inl e \<Rightarrow> Inl e
      | Inr v \<Rightarrow>
          (case sort_versions sort_other rest of
             Inl e \<Rightarrow> Inl e
           | Inr vs \<Rightarrow> Inr (v # vs)))"

text \<open>
  A line of NDJSON after \<^verbatim>\<open>line.strip()\<close> and \<^verbatim>\<open>json.loads\<close>: blank, rejected by the
  parser (with the parser's message), or decoded. The ledger file is a list of such
  lines; a record written with \<^verbatim>\<open>json.dumps\<close> is read back as the same value.
\<close>

datatype ndline = Blank | Malformed string | Doc json

text \<open>The set comprehension \<^verbatim>\<open>{v["version"] for v in new_versions}\<close>, as the list of
  its elements.\<close>

fun version_strings :: "json list \<Rightarrow> py_error + json list" where
  "version_strings [] = Inr []"
| "version_strings (v # rest) =
     (case py_getitem v ''version'' of
        Inl e \<Rightarrow> Inl e
      | Inr x \<Rightarrow>
          if \<not> hashable x then Inl TypeError
          else (case version_strings rest of
                  Inl e \<Rightarrow> Inl e
                | Inr xs \<Rightarrow> Inr (x # xs)))"

text \<open>The list comprehension
  \<^verbatim>\<open>[v for v in existing if v["version"] not in incoming_version_strings]\<close>.\<close>

fun dedup :: "json list \<Rightarrow> json list \<Rightarrow> py_error + json list" where
  "dedup incoming_version_strings [] = Inr []"
| "dedup incoming_version_strings (v # rest) =
     (case py_getitem v ''version'' of
        Inl e \<Rightarrow> Inl e
      | Inr x \<Rightarrow>
          if \<not> hashable x then Inl TypeError
          else (case dedup incoming_version_strings rest of
                  Inl e \<Rightarrow> Inl e
                | Inr kept \<Rightarrow>
                    Inr (if list_ex (py_eq x) incoming_version_strings then kept
                         else v # kept)))"

text \<open>Reading the existing ledger: blank lines and lines that do not parse are skipped.\<close>

fun load_lines :: "ndline list \<Rightarrow> json list" where
  "load_lines [] = []"
| "load_lines (Doc v # rest) = v # load_lines rest"
| "load_lines (l # rest) = load_lines rest"

definition load_existing :: "ndline list option \<Rightarrow> json list" where
  "load_existing content = (case content of None \<Rightarrow> [] | Some ls \<Rightarrow> load_lines ls)"

section \<open>insert-versions.py: main\<close>

text \<open>
  The output directory is \<^verbatim>\<open>--output\<close> (the field \<open>output_arg\<close>) when given, else
  \<^verbatim>\<open>v1\<close> beside the script's directory; the ledger is \<^verbatim>\<open><name>.ndjson\<close> in it.
  Directories are not modelled (\<^verbatim>\<open>mkdir\<close> changes no file). A run returns its exit
  status and the world it leaves: the files, and what standard error has received.
\<close>

datatype out_dir = DefaultV1 | Given string

type_synonym path = "out_dir \<times> string"

record args =
  name :: string
  output_arg :: "string option"

record stdin =
  isatty :: bool
  lines :: "ndline list"

text \<open>What the script prints on standard error, one constructor per \<^verbatim>\<open>print\<close> call,
  and the interpreter's traceback for an exception nobody catches.\<close>

datatype diag =
    ExpectedNDJSON
  | ParseError nat string
  | ValidationError nat "violation list"
  | NoVersions
  | InsertedVersion json path
  | InsertedVersions nat path
  | Traceback py_error

datatype exit = Exit0 | Exit1 | Uncaught py_error

record world =
  files :: "path \<Rightarrow> ndline list option"
  stderr :: "diag list"

datatype abort = Quit diag | Raise py_error

text \<open>The loop over \<^verbatim>\<open>enumerate(sys.stdin, 1)\<close>: the first line that does not parse or
  does not validate ends the run.\<close>

fun read_versions :: "nat \<Rightarrow> ndline list \<Rightarrow> json list \<Rightarrow> abort + json list" where
  "read_versions lineno [] new_versions = Inr new_versions"
| "read_versions lineno (Blank # rest) new_versions =
     read_versions (Suc lineno) rest new_versions"
| "read_versions lineno (Malformed e # rest) new_versions =
     Inl (Quit (ParseError lineno e))"
| "read_versions lineno (Doc entry # rest) new_versions =
     (case validate_version entry of
        Inl e \<Rightarrow> Inl (Raise e)
      | Inr errors \<Rightarrow>
          if errors \<noteq> [] then Inl (Quit (ValidationError lineno errors))
          else read_versions (Suc lineno) rest (new_versions @ [entry]))"

definition versions_path :: "args \<Rightarrow> path" where
  "versions_path a =
     ((case output_arg a of Some d \<Rightarrow> Given d | None \<Rightarrow> DefaultV1), name a @ ''.ndjson'')"

definition fail :: "world \<Rightarrow> diag \<Rightarrow> exit \<times> world" where
  "fail w d = (Exit1, w\<lparr>stderr := stderr w @ [d]\<rparr>)"

definition uncaught :: "world \<Rightarrow> py_error \<Rightarrow> exit \<times> world" where
  "uncaught w e = (Uncaught e, w\<lparr>stderr := stderr w @ [Traceback e]\<rparr>)"

text \<open>The message of the last \<^verbatim>\<open>print\<close>: \<^verbatim>\<open>new_versions[0]['version']\<close> when one
  record was inserted, the count otherwise.\<close>

definition inserted :: "json list \<Rightarrow> path \<Rightarrow> py_error + diag" where
  "inserted new_versions p =
     (if length new_versions = 1 then
        (case py_getitem (hd new_versions) ''version'' of
           Inl e \<Rightarrow> Inl e
         | Inr v \<Rightarrow> Inr (InsertedVersion v p))
      else Inr (InsertedVersions (length new_versions) p))"

definition insert_versions_main ::
  "(json list \<Rightarrow> py_error + json list) \<Rightarrow> args \<Rightarrow> stdin \<Rightarrow> world \<Rightarrow> exit \<times> world" where
  "insert_versions_main sort_other a inp w =
     (if isatty inp then fail w ExpectedNDJSON
      else
        (case read_versions 1 (lines inp) [] of
           Inl (Quit d) \<Rightarrow> fail w d
         | Inl (Raise e) \<Rightarrow> uncaught w e
         | Inr parsed \<Rightarrow>
             if parsed = [] then fail w NoVersions
             else
               (case sort_versions sort_other parsed of
                  Inl e \<Rightarrow> uncaught w e
                | Inr new_versions \<Rightarrow>
                    (let p = versions_path a;
                         existing = load_existing (files w p)
                     in case version_strings new_versions of
                          Inl e \<Rightarrow> uncaught w e
                        | Inr incoming_version_strings \<Rightarrow>
                            (case dedup incoming_version_strings existing of
                               Inl e \<Rightarrow> uncaught w e
                             | Inr kept \<Rightarrow>
                                 (let versions = new_versions @ kept;
                                      w' = w\<lparr>files := (files w)(p := Some (map Doc versions))\<rparr>
                                  in case inserted new_versions p of
                                       Inl e \<Rightarrow> uncaught w' e
                                     | Inr d \<Rightarrow> (Exit0, w'\<lparr>stderr := stderr w' @ [d]\<rparr>)))))))"

section \<open>convert-cargo-dist-plan.py: strings and file names\<close>

text \<open>\<^verbatim>\<open>str.startswith\<close> and \<^verbatim>\<open>str.endswith\<close>.\<close>

definition startswith :: "string \<Rightarrow> string \<Rightarrow> bool" where
  "startswith s p = (take (length p) s = p)"

definition endswith :: "string \<Rightarrow> string \<Rightarrow> bool" where
  "endswith s suf = (length suf \<le> length s \<and> drop (length s - length suf) s = suf)"

text \<open>The characters that \<^verbatim>\<open>str.strip()\<close> and \<^verbatim>\<open>str.split()\<close> treat as white space,
  among the code points below 256: tab, line feed, vertical tab, form feed, carriage
  return, the four separators 0x1C to 0x1F, space, next line (0x85) and no-break space
  (0xA0).\<close>

definition is_space :: "char \<Rightarrow> bool" where
  "is_space c = (c \<in> set [CHR 0x09, CHR 0x0A, CHR 0x0B, CHR 0x0C, CHR 0x0D,
                            CHR 0x1C, CHR 0x1D, CHR 0x1E, CHR 0x1F, CHR 0x20,
                            CHR 0x85, CHR 0xA0])"

definition strip :: "string \<Rightarrow> string" where
  "strip s = rev (dropWhile is_space (rev (dropWhile is_space s)))"

text \<open>\<^verbatim>\<open>str.split()\<close> with no argument: the maximal runs of characters that are not
  white space. \<open>cur\<close> is the run being read.\<close>

fun split_words :: "string \<Rightarrow> string \<Rightarrow> string list" where
  "split_words cur [] = (if cur = [] then [] else [cur])"
| "split_words cur (c # cs) =
     (if is_space c then (if cur = [] then split_words [] cs else cur # split_words [] cs)
      else split_words (cur @ [c]) cs)"

definition py_split :: "string \<Rightarrow> string list" where
  "py_split s = split_words [] s"

definition get_archive_format :: "string \<Rightarrow> string" where
  "get_archive_format filename =
     (if endswith filename ''.tar.gz'' then ''tar.gz''
      else if endswith filename ''.tar.zst'' then ''tar.zst''
      else if endswith filename ''.zip'' then ''zip''
      else ''unknown'')"

section \<open>convert-cargo-dist-plan.py: fetching a checksum\<close>

text \<open>
  What \<^verbatim>\<open>client.get(url)\<close> does: it returns a response with a status code and a
  body, or it raises an \<^verbatim>\<open>httpx.TransportError\<close> (connection failure, timeout; like
  \<^verbatim>\<open>HTTPStatusError\<close> a subclass of \<^verbatim>\<open>httpx.HTTPError\<close>), which the clause
  \<^verbatim>\<open>except httpx.HTTPStatusError\<close> of \<^verbatim>\<open>fetch_sha256\<close> does not catch. The network is a function from the number of requests sent so far and the URL
  to that outcome. \<^verbatim>\<open>response.raise_for_status()\<close> of httpx raises HTTPStatusError
  unless the status code is a success code, 200 to 299.
\<close>

datatype get_outcome = Response nat string | TransportFailure

type_synonym client = "nat \<Rightarrow> string \<Rightarrow> get_outcome"

definition is_success :: "nat \<Rightarrow> bool" where
  "is_success status_code = (200 \<le> status_code \<and> status_code < 300)"

text \<open>What the converter prints on standard error.\<close>

datatype conv_diag =
    ExpectedPlanJSON
  | PlanParseError string
  | Extracting
  | Warning string
  | FoundVersion json nat
  | ConvTraceback py_error

text \<open>The state of a run: the requests sent, the arguments of \<^verbatim>\<open>time.sleep\<close> in
  order, the lines on standard error and the documents on standard output.\<close>

record conv_state =
  calls :: nat
  slept :: "nat list"
  conv_stderr :: "conv_diag list"
  conv_stdout :: "json list"

text \<open>The loop \<^verbatim>\<open>for attempt in range(1, 4)\<close> of \<^verbatim>\<open>fetch_sha256\<close>, over the attempts
  that remain; falling out of the loop returns \<^verbatim>\<open>None\<close>.\<close>

fun fetch_attempts ::
  "client \<Rightarrow> string \<Rightarrow> nat list \<Rightarrow> conv_state \<Rightarrow> (py_error + string option) \<times> conv_state" where
  "fetch_attempts client url [] s = (Inr None, s)"
| "fetch_attempts client url (attempt # rest) s =
     (case client (calls s) url of
        TransportFailure \<Rightarrow> (Inl TransportError, s\<lparr>calls := Suc (calls s)\<rparr>)
      | Response status_code text \<Rightarrow>
          (let s = s\<lparr>calls := Suc (calls s)\<rparr> in
           if status_code = 404 then (Inr None, s)
           else if \<not> is_success status_code then
             (if (status_code = 502 \<or> status_code = 503 \<or> status_code = 504) \<and> attempt < 3
              then fetch_attempts client url rest (s\<lparr>slept := slept s @ [2 ^ attempt]\<rparr>)
              else (Inr None, s))
           else
             (case py_split (strip text) of
                [] \<Rightarrow> (Inl IndexError, s)
              | token # tokens \<Rightarrow> (Inr (Some token), s))))"

definition fetch_sha256 ::
  "client \<Rightarrow> string \<Rightarrow> conv_state \<Rightarrow> (py_error + string option) \<times> conv_state" where
  "fetch_sha256 client url s = fetch_attempts client url [1, 2, 3] s"

section \<open>convert-cargo-dist-plan.py: the manifest\<close>

text \<open>\<^verbatim>\<open>for x in v\<close>: a list yields its elements, a dict its keys, a string its
  characters; nothing else is iterable.\<close>

fun py_iter :: "json \<Rightarrow> py_error + json list" where
  "py_iter (JArr xs) = Inr xs"
| "py_iter (JObj kvs) = Inr (map (\<lambda>kv. JStr (fst kv)) kvs)"
| "py_iter (JStr s) = Inr (map (\<lambda>c. JStr [c]) s)"
| "py_iter v = Inl TypeError"

text \<open>\<^verbatim>\<open>len(v)\<close>.\<close>

fun py_len :: "json \<Rightarrow> py_error + nat" where
  "py_len (JStr s) = Inr (length s)"
| "py_len (JArr xs) = Inr (length xs)"
| "py_len (JObj kvs) = Inr (length kvs)"
| "py_len v = Inl TypeError"

text \<open>\<^verbatim>\<open>d.get(key, [])\<close> on a dict.\<close>

definition get_or_empty :: "(string \<times> json) list \<Rightarrow> string \<Rightarrow> json" where
  "get_or_empty d key = (case map_of d key of None \<Rightarrow> JArr [] | Some v \<Rightarrow> v)"

text \<open>A value inside an f-string: a string stands for itself; for any other value the
  text is what the interpreter's \<^verbatim>\<open>str()\<close> gives, the parameter \<open>str_other\<close>.\<close>

fun format_value :: "(json \<Rightarrow> string) \<Rightarrow> json \<Rightarrow> string" where
  "format_value str_other (JStr s) = s"
| "format_value str_other v = str_other v"

text \<open>
  The pattern \<^verbatim>\<open>https://github\.com/([^/]+)/([^/]+)/releases/download/\<close>.
  \<open>match_here\<close> matches it at the start of a string: each group is the maximal run of
  characters other than the slash (a shorter run would not be followed by a slash), and
  must not be empty. \<open>re_search\<close> is \<^verbatim>\<open>re.search\<close>: the leftmost match.
\<close>

definition match_here :: "string \<Rightarrow> (string \<times> string) option" where
  "match_here s =
     (if startswith s ''https://github.com/'' then
        (let r1 = drop (length ''https://github.com/'') s;
             g1 = takeWhile (\<lambda>c. c \<noteq> CHR ''/'') r1;
             r2 = dropWhile (\<lambda>c. c \<noteq> CHR ''/'') r1
         in if g1 = [] then None
            else (case r2 of
                    [] \<Rightarrow> None
                  | slash # r3 \<Rightarrow>
                      (let g2 = takeWhile (\<lambda>c. c \<noteq> CHR ''/'') r3;
                           r4 = dropWhile (\<lambda>c. c \<noteq> CHR ''/'') r3
                       in if g2 = [] then None
                          else if startswith r4 ''/releases/download/'' then Some (g1, g2)
                          else None)))
      else None)"

fun re_search :: "string \<Rightarrow> (string \<times> string) option" where
  "re_search [] = match_here []"
| "re_search (c # cs) =
     (case match_here (c # cs) of Some m \<Rightarrow> Some m | None \<Rightarrow> re_search cs)"

text \<open>
  \<^verbatim>\<open>extract_github_info\<close>. The loop body runs for the first release only (it ends
  in \<^verbatim>\<open>break\<close>); with no release, or with \<^verbatim>\<open>null\<close> as the first release's
  \<^verbatim>\<open>app_name\<close>, the function raises ValueError.
\<close>

definition extract_github_info :: "json \<Rightarrow> py_error + (json \<times> json \<times> json)" where
  "extract_github_info manifest =
     (case manifest of
        JObj m \<Rightarrow>
          (case py_iter (get_or_empty m ''releases'') of
             Inl e \<Rightarrow> Inl e
           | Inr [] \<Rightarrow> Inl ValueError
           | Inr (release # releases) \<Rightarrow>
               (case py_getitem release ''app_name'' of
                  Inl e \<Rightarrow> Inl e
                | Inr app_name \<Rightarrow>
                    (let fallback =
                       (if app_name = JNull then Inl ValueError
                        else Inr (JStr ''astral-sh'', app_name, app_name))
                     in case map_of m ''announcement_github_body'' of
                          None \<Rightarrow> fallback
                        | Some (JStr body) \<Rightarrow>
                            (case re_search body of
                               Some (org, repo) \<Rightarrow> Inr (JStr org, JStr repo, app_name)
                             | None \<Rightarrow> fallback)
                        | Some other \<Rightarrow> Inl TypeError)))
      | _ \<Rightarrow> Inl AttributeError)"

text \<open>The values that \<^verbatim>\<open>extract_version_info\<close> holds while it loops over artifacts.\<close>

record info =
  version :: json
  github_org :: json
  github_repo :: json
  app_name :: json

definition release_url :: "(json \<Rightarrow> string) \<Rightarrow> info \<Rightarrow> string \<Rightarrow> string" where
  "release_url str_other i artifact_name =
     ''https://github.com/'' @ format_value str_other (github_org i) @ ''/'' @
     format_value str_other (github_repo i) @ ''/releases/download/'' @
     format_value str_other (version i) @ ''/'' @ artifact_name"

text \<open>
  The part of the loop body after the platform is known: fetch the checksum; with none
  (\<^verbatim>\<open>None\<close> or an empty string) print the warning and go on to the next artifact,
  else build the artifact record.
\<close>

definition fetch_artifact ::
  "client \<Rightarrow> (json \<Rightarrow> string) \<Rightarrow> info \<Rightarrow> string \<Rightarrow> string \<Rightarrow> conv_state \<Rightarrow>
     (py_error + json option) \<times> conv_state" where
  "fetch_artifact client str_other i artifact_name platform s =
     (case fetch_sha256 client (release_url str_other i artifact_name @ ''.sha256'') s of
        (Inl e, s') \<Rightarrow> (Inl e, s')
      | (Inr sha256, s') \<Rightarrow>
          (case sha256 of
             None \<Rightarrow> (Inr None, s'\<lparr>conv_stderr := conv_stderr s' @ [Warning artifact_name]\<rparr>)
           | Some digest \<Rightarrow>
               if digest = [] then (Inr None, s'\<lparr>conv_stderr := conv_stderr s' @ [Warning artifact_name]\<rparr>)
               else
                 (Inr (Some (JObj
                    [(''platform'', JStr platform),
                     (''variant'', JStr ''default''),
                     (''url'', JStr (release_url str_other i artifact_name)),
                     (''archive_format'', JStr (get_archive_format artifact_name)),
                     (''sha256'', JStr digest)])), s')))"

text \<open>
  One iteration of \<^verbatim>\<open>for artifact_name in release.get("artifacts", [])\<close>: the record
  to append, or none when the iteration ends in \<^verbatim>\<open>continue\<close>. Only a string has
  \<^verbatim>\<open>startswith\<close>.
\<close>

definition process_artifact ::
  "client \<Rightarrow> (json \<Rightarrow> string) \<Rightarrow> info \<Rightarrow> json \<Rightarrow> conv_state \<Rightarrow>
     (py_error + json option) \<times> conv_state" where
  "process_artifact client str_other i artifact s =
     (case artifact of
        JStr artifact_name \<Rightarrow>
          if \<not> startswith artifact_name (format_value str_other (app_name i) @ ''-'')
             \<or> endswith artifact_name ''.sha256''
             \<or> artifact_name = ''source.tar.gz''
             \<or> artifact_name = ''source.tar.gz.sha256''
             \<or> artifact_name = ''sha256.sum''
             \<or> endswith artifact_name ''.sh''
             \<or> endswith artifact_name ''.ps1''
          then (Inr None, s)
          else
            (case py_len (app_name i) of
               Inl e \<Rightarrow> (Inl e, s)
             | Inr n \<Rightarrow>
                 (let prefix_len = n + 1 in
                  if endswith artifact_name ''.tar.gz'' then
                    fetch_artifact client str_other i artifact_name
                      (drop prefix_len (take (length artifact_name - 7) artifact_name)) s
                  else if endswith artifact_name ''.zip'' then
                    fetch_artifact client str_other i artifact_name
                      (drop prefix_len (take (length artifact_name - 4) artifact_name)) s
                  else (Inr None, s)))
      | _ \<Rightarrow> (Inl AttributeError, s))"

fun artifacts_loop ::
  "client \<Rightarrow> (json \<Rightarrow> string) \<Rightarrow> info \<Rightarrow> json list \<Rightarrow> json list \<Rightarrow> conv_state \<Rightarrow>
     (py_error + json list) \<times> conv_state" where
  "artifacts_loop client str_other i [] artifacts_data s = (Inr artifacts_data, s)"
| "artifacts_loop client str_other i (artifact # rest) artifacts_data s =
     (case process_artifact client str_other i artifact s of
        (Inl e, s') \<Rightarrow> (Inl e, s')
      | (Inr None, s') \<Rightarrow> artifacts_loop client str_other i rest artifacts_data s'
      | (Inr (Some a), s') \<Rightarrow> artifacts_loop client str_other i rest (artifacts_data @ [a]) s')"

text \<open>
  \<^verbatim>\<open>extract_version_info\<close>. \<^verbatim>\<open>app_name\<close> is the \<^verbatim>\<open>app_name\<close> of the first
  release, so the test \<^verbatim>\<open>release["app_name"] == app_name\<close> holds at the first release
  (a value loaded from JSON equals itself; NaN is not represented) and the \<^verbatim>\<open>break\<close>
  after its artifacts ends the loop over releases there. \<open>now\<close> is the text of
  \<^verbatim>\<open>datetime.now(timezone.utc).isoformat()\<close>.
\<close>

definition extract_version_info ::
  "client \<Rightarrow> (json \<Rightarrow> string) \<Rightarrow> (json list \<Rightarrow> py_error + json list) \<Rightarrow> string \<Rightarrow> json \<Rightarrow>
     conv_state \<Rightarrow> (py_error + json) \<times> conv_state" where
  "extract_version_info client str_other sort_other now manifest s =
     (case py_getitem manifest ''announcement_tag'' of
        Inl e \<Rightarrow> (Inl e, s)
      | Inr tag \<Rightarrow>
          (case extract_github_info manifest of
             Inl e \<Rightarrow> (Inl e, s)
           | Inr (org, repo, app) \<Rightarrow>
               (case manifest of
                  JObj m \<Rightarrow>
                    (case py_iter (get_or_empty m ''releases'') of
                       Inr (JObj release # releases) \<Rightarrow>
                         (case py_iter (get_or_empty release ''artifacts'') of
                            Inl e \<Rightarrow> (Inl e, s)
                          | Inr names \<Rightarrow>
                              (case artifacts_loop client str_other
                                      \<lparr>version = tag, github_org = org, github_repo = repo,
                                       app_name = app\<rparr> names [] s of
                                 (Inl e, s') \<Rightarrow> (Inl e, s')
                               | (Inr artifacts_data, s') \<Rightarrow>
                                   (case sort_artifacts sort_other artifacts_data of
                                      Inl e \<Rightarrow> (Inl e, s')
                                    | Inr sorted_data \<Rightarrow>
                                        (Inr (JObj [(''version'', tag),
                                                    (''date'', JStr now),
                                                    (''artifacts'', JArr sorted_data)]), s'))))
                     | _ \<Rightarrow> (Inl TypeError, s))
                | _ \<Rightarrow> (Inl AttributeError, s))))"

section \<open>convert-cargo-dist-plan.py: main\<close>

text \<open>Standard input of the converter: whether it is a terminal, and what
  \<^verbatim>\<open>json.load\<close> makes of it (the parser's message, or the document).\<close>

record plan_stdin =
  plan_isatty :: bool
  plan :: "string + json"

definition convert_main ::
  "client \<Rightarrow> (json \<Rightarrow> string) \<Rightarrow> (json list \<Rightarrow> py_error + json list) \<Rightarrow> string \<Rightarrow>
     plan_stdin \<Rightarrow> conv_state \<Rightarrow> exit \<times> conv_state" where
  "convert_main client str_other sort_other now inp s =
     (if plan_isatty inp then (Exit1, s\<lparr>conv_stderr := conv_stderr s @ [ExpectedPlanJSON]\<rparr>)
      else
        (case plan inp of
           Inl e \<Rightarrow> (Exit1, s\<lparr>conv_stderr := conv_stderr s @ [PlanParseError e]\<rparr>)
         | Inr manifest \<Rightarrow>
             (let s1 = s\<lparr>conv_stderr := conv_stderr s @ [Extracting]\<rparr> in
              case extract_version_info client str_other sort_other now manifest s1 of
                (Inl e, s2) \<Rightarrow> (Uncaught e, s2\<lparr>conv_stderr := conv_stderr s2 @ [ConvTraceback e]\<rparr>)
              | (Inr version_info, s2) \<Rightarrow>
                  (case py_getitem version_info ''version'' of
                     Inl e \<Rightarrow> (Uncaught e, s2\<lparr>conv_stderr := conv_stderr s2 @ [ConvTraceback e]\<rparr>)
                   | Inr v \<Rightarrow>
                       (case py_getitem version_info ''artifacts'' of
                          Inl e \<Rightarrow> (Uncaught e, s2\<lparr>conv_stderr := conv_stderr s2 @ [ConvTraceback e]\<rparr>)
                        | Inr arts \<Rightarrow>
                            (case py_len arts of
                               Inl e \<Rightarrow> (Uncaught e, s2\<lparr>conv_stderr := conv_stderr s2 @ [ConvTraceback e]\<rparr>)
                             | Inr n \<Rightarrow>
                                 (Exit0, s2\<lparr>conv_stderr := conv_stderr s2 @ [FoundVersion v n],
                                           conv_stdout := conv_stdout s2 @ [version_info]\<rparr>)))))))"

section \<open>Notions used to state the properties of the merge\<close>

text \<open>The \<^verbatim>\<open>version\<close> of a record, when \<^verbatim>\<open>v["version"]\<close> does not raise.\<close>

definition version_of :: "json \<Rightarrow> json option" where
  "version_of v = (case py_getitem v ''version'' of Inl e \<Rightarrow> None | Inr x \<Rightarrow> Some x)"

text \<open>A record of the existing ledger that the deduplication can handle: it has a
  \<^verbatim>\<open>version\<close>, and the value is hashable.\<close>

definition has_version :: "json \<Rightarrow> bool" where
  "has_version v = (case version_of v of None \<Rightarrow> False | Some x \<Rightarrow> hashable x)"

text \<open>An input line that is blank, or that parses and validates with no message.\<close>

fun line_ok :: "ndline \<Rightarrow> bool" where
  "line_ok Blank = True"
| "line_ok (Malformed e) = False"
| "line_ok (Doc entry) = (validate_version entry = Inr [])"




text \<open>The status codes that \<^verbatim>\<open>fetch_sha256\<close> retries, and the property that the
  \<open>k\<close> requests from request number \<open>n\<close> on were each answered with one of them.\<close>

definition retryable :: "nat \<Rightarrow> bool" where
  "retryable status_code = (status_code = 502 \<or> status_code = 503 \<or> status_code = 504)"

fun retried :: "client \<Rightarrow> string \<Rightarrow> nat \<Rightarrow> nat \<Rightarrow> bool" where
  "retried client url n 0 = True"
| "retried client url n (Suc k) =
     (case client n url of
        Response status_code body \<Rightarrow> retryable status_code \<and> retried client url (Suc n) k
      | TransportFailure \<Rightarrow> False)"

section \<open>Example records, inputs and ledgers\<close>

definition mk_artifact :: "string \<Rightarrow> string \<Rightarrow> json" where
  "mk_artifact platform fmt =
     JObj [(''platform'', JStr platform), (''variant'', JStr ''default''),
           (''url'', JStr ''https://x/y''), (''archive_format'', JStr fmt),
           (''sha256'', JStr ''abc123'')]"

definition mk_version :: "string \<Rightarrow> json list \<Rightarrow> json" where
  "mk_version v artifacts =
     JObj [(''version'', JStr v), (''date'', JStr ''2024-01-01T00:00:00Z''),
           (''artifacts'', JArr artifacts)]"

text \<open>An interpreter whose sort raises on every key that is not a pair of strings.\<close>

definition no_sort :: "json list \<Rightarrow> py_error + json list" where
  "no_sort artifacts = Inl TypeError"

definition args_uv :: args where
  "args_uv = \<lparr>name = ''uv'', output_arg = None\<rparr>"

definition stdin_two :: stdin where
  "stdin_two = \<lparr>isatty = False, lines =
     [Doc (mk_version ''2.0.0''
             [mk_artifact ''linux-x64'' ''tar.gz'', mk_artifact ''darwin-arm64'' ''zip'']),
      Blank,
      Doc (mk_version ''1.1.0'' [mk_artifact ''linux-x64'' ''tar.gz''])]\<rparr>"

definition ledger_old :: "ndline list" where
  "ledger_old =
     [Doc (mk_version ''1.1.0'' [mk_artifact ''win-x64'' ''zip'']),
      Malformed ''Expecting value'',
      Doc (mk_version ''1.0.0'' [mk_artifact ''linux-x64'' ''tar.gz''])]"

definition world_old :: world where
  "world_old =
     \<lparr>files = (\<lambda>p. if p = versions_path args_uv then Some ledger_old else None),
      stderr = []\<rparr>"

definition stdin_dup :: stdin where
  "stdin_dup = \<lparr>isatty = False, lines =
     [Doc (mk_version ''1.0.0'' [mk_artifact ''linux-x64'' ''tar.gz'']),
      Doc (mk_version ''1.0.0'' [mk_artifact ''darwin-arm64'' ''zip''])]\<rparr>"

definition world_empty :: world where
  "world_empty = \<lparr>files = (\<lambda>p. None), stderr = []\<rparr>"

definition stdin_one :: stdin where
  "stdin_one = \<lparr>isatty = False, lines =
     [Doc (mk_version ''1.1.0''
        [mk_artifact ''linux-x64'' ''tar.gz'', mk_artifact ''darwin-arm64'' ''zip''])]\<rparr>"



definition stdin_tty :: stdin where
  "stdin_tty = \<lparr>isatty = True, lines = []\<rparr>"

definition stdin_blank :: stdin where
  "stdin_blank = \<lparr>isatty = False, lines = [Blank, Blank]\<rparr>"

definition stdin_malformed :: stdin where
  "stdin_malformed = \<lparr>isatty = False, lines =
     [Doc (mk_version ''2.0.0'' [mk_artifact ''linux-x64'' ''tar.gz'']),
      Blank,
      Malformed ''Expecting value'',
      Doc (mk_version ''1.1.0'' [mk_artifact ''linux-x64'' ''tar.gz''])]\<rparr>"

definition stdin_invalid :: stdin where
  "stdin_invalid = \<lparr>isatty = False, lines =
     [Blank,
      Doc (mk_version ''2.0.0'' [mk_artifact ''linux-x64'' ''rar'']),
      Doc (mk_version ''1.1.0'' [mk_artifact ''linux-x64'' ''tar.gz''])]\<rparr>"

definition ledger_bad :: "ndline list" where
  "ledger_bad =
     [Doc (mk_version ''1.0.0'' [mk_artifact ''linux-x64'' ''tar.gz'']),
      Doc (JObj [(''date'', JStr ''2024-01-01T00:00:00Z'')])]"

definition world_bad :: world where
  "world_bad =
     \<lparr>files = (\<lambda>p. if p = versions_path args_uv then Some ledger_bad else None),
      stderr = []\<rparr>"

definition entry_rar :: json where
  "entry_rar = mk_version ''1.0.0'' [JObj [(''platform'', JStr ''linux-x64''), (''archive_format'', JStr ''rar'')]]"

definition entry_mixed :: json where
  "entry_mixed = JObj [(''version'', JStr []), (''artifacts'', JArr
     [mk_artifact ''linux-x64'' ''rar'',
      JObj [(''platform'', JStr ''linux-x64''), (''url'', JStr ''https://x/y'')],
      JStr ''oops'',
      mk_artifact ''darwin-arm64'' ''zip''])]"

section \<open>Example manifest and network\<close>

definition manifest_uv :: json where
  "manifest_uv =
     JObj [(''announcement_tag'', JStr ''v1.0.0''),
           (''releases'', JArr
              [JObj [(''app_name'', JStr ''uv''),
                     (''artifacts'', JArr
                        [JStr ''uv-x86_64-unknown-linux-gnu.tar.gz'',
                         JStr ''uv-x86_64-unknown-linux-gnu.tar.gz.sha256''])]])]"

definition sha256_url_uv :: string where
  "sha256_url_uv =
     ''https://github.com/astral-sh/uv/releases/download/v1.0.0/uv-x86_64-unknown-linux-gnu.tar.gz.sha256''"

definition client_deadbeef :: client where
  "client_deadbeef n url =
     (if url = sha256_url_uv then Response 200 ''deadbeef  uv-x86_64-unknown-linux-gnu.tar.gz''
      else Response 404 [])"

definition client_blank :: client where
  "client_blank n url = Response 200 '' ''"

definition str_none :: "json \<Rightarrow> string" where
  "str_none v = ''None''"

definition state0 :: conv_state where
  "state0 = \<lparr>calls = 0, slept = [], conv_stderr = [], conv_stdout = []\<rparr>"

definition plan_uv :: plan_stdin where
  "plan_uv = \<lparr>plan_isatty = False, plan = Inr manifest_uv\<rparr>"

definition client_flaky :: client where
  "client_flaky n url =
     (if n = 0 then Response 503 [] else if n = 1 then Response 502 [] else Response 504 [])"

definition client_recovers :: client where
  "client_recovers n url = (if n = 0 then Response 503 [] else Response 200 ''deadbeef'')"

definition info_uv :: info where
  "info_uv = \<lparr>version = JStr ''v1.0.0'', github_org = JStr ''astral-sh'',
              github_repo = JStr ''uv'', app_name = JStr ''uv''\<rparr>"

definition client_then_404 :: client where
  "client_then_404 n url = (if n = 0 then Response 503 [] else Response 404 ''Not Found'')"

definition client_down :: client where
  "client_down n url = TransportFailure"

definition manifest_two :: json where
  "manifest_two =
     JObj [(''announcement_tag'', JStr ''v1.0.0''),
           (''releases'', JArr
              [JObj [(''app_name'', JStr ''uv''),
                     (''artifacts'', JArr
                        [JStr ''uv-aarch64-apple-darwin.tar.gz'',
                         JStr ''uv-x86_64-unknown-linux-gnu.tar.gz''])]])]"

definition plan_two :: plan_stdin where
  "plan_two = \<lparr>plan_isatty = False, plan = Inr manifest_two\<rparr>"

definition sha256_url_darwin :: string where
  "sha256_url_darwin =
     ''https://github.com/astral-sh/uv/releases/download/v1.0.0/uv-aarch64-apple-darwin.tar.gz.sha256''"

definition record_linux :: "string \<Rightarrow> json" where
  "record_linux now =
     JObj [(''version'', JStr ''v1.0.0''), (''date'', JStr now),
       (''artifacts'', JArr [JObj
          [(''platform'', JStr ''x86_64-unknown-linux-gnu''),
           (''variant'', JStr ''default''),
           (''url'', JStr ''https://github.com/astral-sh/uv/releases/download/v1.0.0/uv-x86_64-unknown-linux-gnu.tar.gz''),
           (''archive_format'', JStr ''tar.gz''),
           (''sha256'', JStr ''deadbeef'')]])]"

section \<open>Lemmas about validation, sorting and deduplication\<close>

lemmas eval_simps =
  mk_artifact_def mk_version_def no_sort_def args_uv_def stdin_two_def ledger_old_def
  world_old_def stdin_dup_def world_empty_def stdin_one_def insert_versions_main_def versions_path_def fail_def uncaught_def
  inserted_def load_existing_def sort_artifacts_def missing_keys_def
  REQUIRED_ARTIFACT_KEYS_def VALID_ARCHIVE_FORMATS_def py_eq_def Let_def

lemma py_eq_JStr: "py_eq x (JStr s) = (x = JStr s)"
  by (cases x) (auto simp: py_eq_def)

lemma list_ex_py_eq_strs: "list_ex (py_eq x) (map JStr ss) = (x \<in> JStr ` set ss)"
  by (induction ss) (auto simp: py_eq_JStr)

lemma validate_artifacts_acc:
  "validate_artifacts i arts errs =
     (case validate_artifacts i arts [] of Inl e \<Rightarrow> Inl e | Inr out \<Rightarrow> Inr (errs @ out))"
proof (induction arts arbitrary: i errs)
  case Nil
  then show ?case by simp
next
  case (Cons a arts)
  show ?case
  proof (cases "check_artifact i a")
    case (Inl e)
    then show ?thesis by simp
  next
    case (Inr msgs)
    have "validate_artifacts (Suc i) arts (errs @ msgs) =
        (case validate_artifacts (Suc i) arts [] of Inl e \<Rightarrow> Inl e | Inr out \<Rightarrow> Inr ((errs @ msgs) @ out))"
      by (rule Cons.IH)
    moreover have "validate_artifacts (Suc i) arts msgs =
        (case validate_artifacts (Suc i) arts [] of Inl e \<Rightarrow> Inl e | Inr out \<Rightarrow> Inr (msgs @ out))"
      by (rule Cons.IH)
    ultimately show ?thesis using Inr by (simp split: sum.splits)
  qed
qed

lemma check_artifact_index:
  "check_artifact i a = Inr [] \<longleftrightarrow> check_artifact j a = Inr []"
  by (cases a) (auto simp: Let_def split: option.splits)

lemma check_artifact_ok:
  "check_artifact i a = Inr [] \<longleftrightarrow>
     (\<exists>kvs fmt. a = JObj kvs \<and> missing_keys kvs = [] \<and>
        map_of kvs ''archive_format'' = Some (JStr fmt) \<and> fmt \<in> set VALID_ARCHIVE_FORMATS)"
  by (cases a) (auto simp: Let_def list_ex_py_eq_strs split: option.splits)

lemma validate_artifacts_ok:
  "validate_artifacts i arts errs = Inr [] \<longleftrightarrow>
     errs = [] \<and> list_all (\<lambda>a. check_artifact 0 a = Inr []) arts"
proof (induction arts arbitrary: i errs)
  case Nil
  then show ?case by simp
next
  case (Cons a arts)
  show ?case
  proof (cases "check_artifact i a")
    case (Inl e)
    then show ?thesis using check_artifact_index[of i a 0] by auto
  next
    case (Inr msgs)
    then show ?thesis using Cons.IH[of "Suc i" "errs @ msgs"] check_artifact_index[of i a 0]
      by auto
  qed
qed

lemma nonempty_str_iff: "nonempty_str v \<longleftrightarrow> (\<exists>s. v = Some (JStr s) \<and> s \<noteq> [])"
  by (cases v rule: nonempty_str.cases) auto

lemma validate_version_ok:
  "validate_version e = Inr [] \<longleftrightarrow>
     (\<exists>kvs s d arts. e = JObj kvs \<and> map_of kvs ''version'' = Some (JStr s) \<and> s \<noteq> [] \<and>
        map_of kvs ''date'' = Some (JStr d) \<and> d \<noteq> [] \<and>
        map_of kvs ''artifacts'' = Some (JArr arts) \<and> arts \<noteq> [] \<and>
        list_all (\<lambda>a. check_artifact 0 a = Inr []) arts)"
proof (cases e)
  case (JObj kvs)
  show ?thesis
  proof (cases "\<exists>a as. map_of kvs ''artifacts'' = Some (JArr (a # as))")
    case True
    then obtain a as where m: "map_of kvs ''artifacts'' = Some (JArr (a # as))" by blast
    show ?thesis unfolding JObj
      using m validate_artifacts_ok[of 0 "a # as"]
      by (auto simp: nonempty_str_iff simp del: validate_artifacts.simps)
  next
    case False
    then have "validate_version (JObj kvs) \<noteq> Inr []"
      by (auto split: option.splits json.splits list.splits)
    moreover have "\<not> (\<exists>arts. map_of kvs ''artifacts'' = Some (JArr arts) \<and> arts \<noteq> [])"
      using False by (metis list.exhaust)
    ultimately show ?thesis unfolding JObj by blast
  qed
qed simp_all

lemma read_versions_iff:
  "read_versions n ls acc = Inr out \<longleftrightarrow> list_all line_ok ls \<and> out = acc @ load_lines ls"
proof (induction ls arbitrary: n acc)
  case Nil
  then show ?case by auto
next
  case (Cons l ls)
  show ?case
  proof (cases l)
    case Blank
    then show ?thesis using Cons.IH by simp
  next
    case (Malformed e)
    then show ?thesis by simp
  next
    case (Doc entry)
    then show ?thesis using Cons.IH[of "Suc n" "acc @ [entry]"]
      by (auto split: sum.splits)
  qed
qed

lemma map_of_dict_set: "map_of (dict_set kvs k v) = (map_of kvs)(k \<mapsto> v)"
  by (induction kvs k v rule: dict_set.induct) auto

lemma sort_version_version_of:
  "sort_version so e = Inr e' \<Longrightarrow> version_of e' = version_of e"
  by (cases e)
     (auto simp: version_of_def map_of_dict_set split: option.splits json.splits sum.splits)

lemma sort_versions_all2:
  "sort_versions so es = Inr new \<Longrightarrow> list_all2 (\<lambda>e e'. sort_version so e = Inr e') es new"
  by (induction es arbitrary: new) (auto split: sum.splits)

lemma sort_versions_version_of:
  "sort_versions so es = Inr new \<Longrightarrow> map version_of new = map version_of es"
  by (induction es arbitrary: new) (auto simp: sort_version_version_of split: sum.splits)


lemma version_of_valid:
  "validate_version e = Inr [] \<Longrightarrow> \<exists>s. version_of e = Some (JStr s)"
  unfolding validate_version_ok by (auto simp: version_of_def)

lemma version_strings_strs:
  "list_all (\<lambda>e. \<exists>s. version_of e = Some (JStr s)) es \<Longrightarrow>
     \<exists>ss. version_strings es = Inr (map JStr ss) \<and> map version_of es = map (Some \<circ> JStr) ss"
proof (induction es)
  case Nil
  then show ?case by simp
next
  case (Cons e es)
  then obtain ss where ss: "version_strings es = Inr (map JStr ss)"
      "map version_of es = map (Some \<circ> JStr) ss" by auto
  from Cons.prems obtain s where s: "version_of e = Some (JStr s)" by auto
  then have "py_getitem e ''version'' = Inr (JStr s)"
    by (auto simp: version_of_def split: sum.splits)
  then have "version_strings (e # es) = Inr (map JStr (s # ss))"
    using ss by simp
  moreover have "map version_of (e # es) = map (Some \<circ> JStr) (s # ss)"
    using ss s by simp
  ultimately show ?case by blast
qed

lemma dedup_iff:
  "dedup (map JStr ss) xs = Inr kept \<longleftrightarrow>
     list_all has_version xs \<and>
     kept = filter (\<lambda>v. version_of v \<notin> Some ` JStr ` set ss) xs"
proof (induction xs arbitrary: kept)
  case Nil
  then show ?case by auto
next
  case (Cons x xs)
  show ?case
  proof (cases "py_getitem x ''version''")
    case (Inl e)
    then show ?thesis by (simp add: has_version_def version_of_def)
  next
    case (Inr v)
    show ?thesis
    proof (cases "hashable v")
      case False
      then show ?thesis using Inr by (simp add: has_version_def version_of_def)
    next
      case True
      have hv: "has_version x" "version_of x = Some v"
        using Inr True by (simp_all add: has_version_def version_of_def)
      show ?thesis
      proof (cases "dedup (map JStr ss) xs")
        case (Inl e)
        then show ?thesis using Inr True Cons.IH by auto
      next
        case r: (Inr k)
        then show ?thesis using Inr True hv Cons.IH[of k]
          by (auto simp: list_ex_py_eq_strs)
      qed
    qed
  qed
qed

lemma dedup_error:
  "dedup S xs = Inl e \<Longrightarrow> e = KeyError \<or> e = TypeError"
proof (induction xs)
  case Nil
  then show ?case by simp
next
  case (Cons x xs)
  then show ?case
    by (cases x) (auto split: sum.splits option.splits if_splits)
qed


lemma sorted_versions_valid:
  assumes "list_all line_ok ls" "sort_versions so (load_lines ls) = Inr new"
  shows "list_all (\<lambda>e. \<exists>s. version_of e = Some (JStr s)) new"
proof -
  have "list_all (\<lambda>e. validate_version e = Inr []) (load_lines ls)"
    using assms(1) by (induction ls rule: load_lines.induct) auto
  then have "list_all (\<lambda>e. \<exists>s. version_of e = Some (JStr s)) (load_lines ls)"
    by (auto simp: list_all_iff dest: version_of_valid)
  then have "\<forall>x \<in> set (map version_of (load_lines ls)). \<exists>s. x = Some (JStr s)"
    by (auto simp: list_all_iff)
  then have "\<forall>x \<in> set (map version_of new). \<exists>s. x = Some (JStr s)"
    using sort_versions_version_of[OF assms(2)] by simp
  then show ?thesis by (auto simp: list_all_iff)
qed

lemma inserted_ok:
  assumes "list_all (\<lambda>e. \<exists>s. version_of e = Some (JStr s)) new"
  shows "\<exists>d. inserted new p = Inr d"
proof (cases "length new = 1")
  case True
  then obtain e where "new = [e]" by (cases new) auto
  then show ?thesis using assms
    by (auto simp: inserted_def version_of_def split: sum.splits)
next
  case False
  then show ?thesis by (simp add: inserted_def)
qed

lemma main_success:
  assumes "fst (insert_versions_main so a inp w) = Exit0"
  shows "\<exists>new d. \<not> isatty inp \<and> list_all line_ok (lines inp) \<and> load_lines (lines inp) \<noteq> [] \<and>
           sort_versions so (load_lines (lines inp)) = Inr new \<and>
           list_all has_version (load_existing (files w (versions_path a))) \<and>
           snd (insert_versions_main so a inp w) =
             w\<lparr>files := (files w)(versions_path a := Some (map Doc (new @
                   filter (\<lambda>v. version_of v \<notin> set (map version_of new))
                     (load_existing (files w (versions_path a)))))),
               stderr := stderr w @ [d]\<rparr>"
proof -
  let ?p = "versions_path a"
  let ?ex = "load_existing (files w ?p)"
  from assms have tty: "\<not> isatty inp"
    by (auto simp: insert_versions_main_def fail_def)
  from assms tty obtain parsed where parsed: "read_versions 1 (lines inp) [] = Inr parsed"
    by (cases "read_versions 1 (lines inp) []")
       (auto simp: insert_versions_main_def fail_def uncaught_def split: abort.splits)
  then have ok: "list_all line_ok (lines inp)" and pe: "parsed = load_lines (lines inp)"
    by (simp_all add: read_versions_iff)
  from assms tty parsed have ne: "parsed \<noteq> []"
    by (auto simp: insert_versions_main_def fail_def)
  from assms tty parsed ne obtain new where new: "sort_versions so parsed = Inr new"
    by (cases "sort_versions so parsed")
       (auto simp: insert_versions_main_def uncaught_def)
  have strs: "list_all (\<lambda>e. \<exists>s. version_of e = Some (JStr s)) new"
    using sorted_versions_valid ok new pe by blast
  then obtain ss where ss: "version_strings new = Inr (map JStr ss)"
      "map version_of new = map (Some \<circ> JStr) ss"
    using version_strings_strs by blast
  have sset: "set (map version_of new) = Some ` JStr ` set ss"
    using ss(2) by (simp add: image_image)
  from assms tty parsed ne new ss obtain kept where kept: "dedup (map JStr ss) ?ex = Inr kept"
    by (cases "dedup (map JStr ss) ?ex")
       (auto simp: insert_versions_main_def uncaught_def Let_def)
  then have hv: "list_all has_version ?ex"
    and ke: "kept = filter (\<lambda>v. version_of v \<notin> set (map version_of new)) ?ex"
    unfolding dedup_iff sset by simp_all
  obtain d where d: "inserted new ?p = Inr d" using inserted_ok[OF strs] by blast
  have "snd (insert_versions_main so a inp w) =
      w\<lparr>files := (files w)(?p := Some (map Doc (new @ kept))), stderr := stderr w @ [d]\<rparr>"
    using tty parsed ne new ss kept d
    by (simp add: insert_versions_main_def Let_def)
  then show ?thesis using tty ok pe ne new hv ke by auto
qed


lemma load_lines_Doc: "load_lines (map Doc vs) = vs"
  by (induction vs) auto

section \<open>The order of the merged ledger\<close>

text \<open>
  Claim C2. When a merge succeeds, the ledger it writes holds first the records read
  from standard input, in the order of their lines and each with its \<^verbatim>\<open>artifacts\<close>
  sorted by the script, then the records of the existing ledger whose \<^verbatim>\<open>version\<close>
  is not the \<^verbatim>\<open>version\<close> of any incoming record, in the order they had; the
  existing records whose \<^verbatim>\<open>version\<close> collides are gone.
\<close>

theorem merge_order:
  assumes "fst (insert_versions_main so a inp w) = Exit0"
  shows "\<exists>new.
     list_all2 (\<lambda>e e'. sort_version so e = Inr e') (load_lines (lines inp)) new \<and>
     map version_of new = map version_of (load_lines (lines inp)) \<and>
     files (snd (insert_versions_main so a inp w)) (versions_path a) =
       Some (map Doc (new @
         filter (\<lambda>v. version_of v \<notin> set (map version_of (load_lines (lines inp))))
           (load_existing (files w (versions_path a)))))"
proof -
  from main_success[OF assms] obtain new d where
    new: "sort_versions so (load_lines (lines inp)) = Inr new" and
    res: "snd (insert_versions_main so a inp w) =
             w\<lparr>files := (files w)(versions_path a := Some (map Doc (new @
                   filter (\<lambda>v. version_of v \<notin> set (map version_of new))
                     (load_existing (files w (versions_path a)))))),
               stderr := stderr w @ [d]\<rparr>"
    by blast
  have "list_all2 (\<lambda>e e'. sort_version so e = Inr e') (load_lines (lines inp)) new"
    using new by (rule sort_versions_all2)
  moreover have "map version_of new = map version_of (load_lines (lines inp))"
    using new by (rule sort_versions_version_of)
  ultimately show ?thesis using res by auto
qed

theorem merge_order_witness:
  "fst (insert_versions_main no_sort args_uv stdin_two world_old) = Exit0 \<and>
   files (snd (insert_versions_main no_sort args_uv stdin_two world_old))
       (versions_path args_uv) =
     Some [Doc (mk_version ''2.0.0''
                  [mk_artifact ''darwin-arm64'' ''zip'', mk_artifact ''linux-x64'' ''tar.gz'']),
           Doc (mk_version ''1.1.0'' [mk_artifact ''linux-x64'' ''tar.gz'']),
           Doc (mk_version ''1.0.0'' [mk_artifact ''linux-x64'' ''tar.gz''])]"
proof -
  have h: "fst (insert_versions_main no_sort args_uv stdin_two world_old) = Exit0"
    by (simp add: eval_simps)
  from merge_order[OF h] obtain new where
    n: "list_all2 (\<lambda>e e'. sort_version no_sort e = Inr e') (load_lines (lines stdin_two)) new"
    and f: "files (snd (insert_versions_main no_sort args_uv stdin_two world_old))
       (versions_path args_uv) =
       Some (map Doc (new @
         filter (\<lambda>v. version_of v \<notin> set (map version_of (load_lines (lines stdin_two))))
           (load_existing (files world_old (versions_path args_uv)))))"
    by blast
  from n have "new =
      [mk_version ''2.0.0''
         [mk_artifact ''darwin-arm64'' ''zip'', mk_artifact ''linux-x64'' ''tar.gz''],
       mk_version ''1.1.0'' [mk_artifact ''linux-x64'' ''tar.gz'']]"
    by (auto simp: eval_simps list_all2_Cons1)
  with f h show ?thesis
    by (simp add: eval_simps version_of_def)
qed

lemma main_run:
  assumes "\<not> isatty inp" "list_all line_ok (lines inp)" "load_lines (lines inp) \<noteq> []"
    "sort_versions so (load_lines (lines inp)) = Inr new"
    "list_all has_version (load_existing (files w (versions_path a)))"
  shows "\<exists>d. insert_versions_main so a inp w =
     (Exit0, w\<lparr>files := (files w)(versions_path a := Some (map Doc (new @
                   filter (\<lambda>v. version_of v \<notin> set (map version_of new))
                     (load_existing (files w (versions_path a)))))),
               stderr := stderr w @ [d]\<rparr>)"
proof -
  let ?p = "versions_path a"
  let ?ex = "load_existing (files w ?p)"
  have parsed: "read_versions 1 (lines inp) [] = Inr (load_lines (lines inp))"
    using assms(2) by (simp add: read_versions_iff)
  have strs: "list_all (\<lambda>e. \<exists>s. version_of e = Some (JStr s)) new"
    using sorted_versions_valid assms(2,4) by blast
  then obtain ss where ss: "version_strings new = Inr (map JStr ss)"
      "map version_of new = map (Some \<circ> JStr) ss"
    using version_strings_strs by blast
  have sset: "set (map version_of new) = Some ` JStr ` set ss"
    using ss(2) by (simp add: image_image)
  have kept: "dedup (map JStr ss) ?ex =
      Inr (filter (\<lambda>v. version_of v \<notin> set (map version_of new)) ?ex)"
    unfolding dedup_iff sset using assms(5) by simp
  obtain d where d: "inserted new ?p = Inr d" using inserted_ok[OF strs] by blast
  have "insert_versions_main so a inp w =
     (Exit0, w\<lparr>files := (files w)(?p := Some (map Doc (new @
                   filter (\<lambda>v. version_of v \<notin> set (map version_of new)) ?ex))),
               stderr := stderr w @ [d]\<rparr>)"
    using assms(1,3,4) parsed ss(1) kept d
    by (simp add: insert_versions_main_def Let_def)
  then show ?thesis by blast
qed

lemma load_existing_Doc: "load_existing (Some (map Doc vs)) = vs"
  by (simp add: load_existing_def load_lines_Doc)

section \<open>Uniqueness of versions in the ledger\<close>

text \<open>
  Claim C1, as amended. When a merge succeeds, the records read from standard input have
  pairwise different \<^verbatim>\<open>version\<close> values and the records of the existing ledger have
  pairwise different \<^verbatim>\<open>version\<close> values, the records of the written ledger have
  pairwise different \<^verbatim>\<open>version\<close> values. The script removes existing records that
  collide with an incoming one; it does not compare the incoming records with each
  other.
\<close>

theorem unique_versions:
  assumes "fst (insert_versions_main so a inp w) = Exit0"
    and "distinct (map version_of (load_lines (lines inp)))"
    and "distinct (map version_of (load_existing (files w (versions_path a))))"
  shows "distinct (map version_of
           (load_existing (files (snd (insert_versions_main so a inp w)) (versions_path a))))"
proof -
  let ?ex = "load_existing (files w (versions_path a))"
  from main_success[OF assms(1)] obtain new d where
    new: "sort_versions so (load_lines (lines inp)) = Inr new" and
    res: "snd (insert_versions_main so a inp w) =
             w\<lparr>files := (files w)(versions_path a := Some (map Doc (new @
                   filter (\<lambda>v. version_of v \<notin> set (map version_of new)) ?ex))),
               stderr := stderr w @ [d]\<rparr>"
    by blast
  have eq: "map version_of new = map version_of (load_lines (lines inp))"
    using new by (rule sort_versions_version_of)
  have d1: "distinct (map version_of new)" using eq assms(2) by simp
  have d2: "distinct (map version_of (filter (\<lambda>v. version_of v \<notin> set (map version_of new)) ?ex))"
    using assms(3) by (rule distinct_map_filter)
  have "distinct (map version_of (new @ filter (\<lambda>v. version_of v \<notin> set (map version_of new)) ?ex))"
    using d1 d2 by (auto simp: image_iff)
  moreover have "load_existing (files (snd (insert_versions_main so a inp w)) (versions_path a)) =
      new @ filter (\<lambda>v. version_of v \<notin> set (map version_of new)) ?ex"
    unfolding res by (simp add: load_existing_Doc del: map_append)
  ultimately show ?thesis by simp
qed

text \<open>The hypotheses hold for the two-record input and the three-line ledger.\<close>

theorem unique_versions_witness:
  "fst (insert_versions_main no_sort args_uv stdin_two world_old) = Exit0 \<and>
   distinct (map version_of (load_lines (lines stdin_two))) \<and>
   distinct (map version_of (load_existing (files world_old (versions_path args_uv)))) \<and>
   distinct (map version_of (load_existing
     (files (snd (insert_versions_main no_sort args_uv stdin_two world_old))
        (versions_path args_uv))))"
proof -
  have h1: "fst (insert_versions_main no_sort args_uv stdin_two world_old) = Exit0"
    by (simp add: eval_simps)
  have h2: "distinct (map version_of (load_lines (lines stdin_two)))"
    by (simp add: eval_simps version_of_def)
  have h3: "distinct (map version_of (load_existing (files world_old (versions_path args_uv))))"
    by (simp add: eval_simps version_of_def)
  show ?thesis using h1 h2 h3 unique_versions[OF h1 h2 h3] by simp
qed

text \<open>Two incoming records with the version 1.0.0, merged into an empty ledger, are both
  written: the ledger then holds the version twice.\<close>

theorem duplicate_batch_counterexample:
  "fst (insert_versions_main no_sort args_uv stdin_dup world_empty) = Exit0 \<and>
   distinct (map version_of (load_existing (files world_empty (versions_path args_uv)))) \<and>
   \<not> distinct (map version_of (load_existing
     (files (snd (insert_versions_main no_sort args_uv stdin_dup world_empty))
        (versions_path args_uv))))"
  by (simp add: eval_simps version_of_def)

lemma filter_has_version:
  "list_all has_version xs \<Longrightarrow> list_all has_version (filter P xs)"
  by (induction xs) auto

lemma load_lines_valid:
  "list_all line_ok ls \<Longrightarrow> list_all (\<lambda>e. validate_version e = Inr []) (load_lines ls)"
  by (induction ls rule: load_lines.induct) auto

section \<open>Merging a record twice\<close>

text \<open>
  Claim C3. Let standard input hold one record \<open>r\<close>. If merging it into a ledger
  succeeds, then merging it again into the result succeeds too, leaves every ledger file
  as the first merge wrote it, and the ledger holds exactly one record whose
  \<^verbatim>\<open>version\<close> is that of \<open>r\<close>.
\<close>

theorem merge_twice:
  assumes one: "load_lines (lines inp) = [r]"
    and ok: "fst (insert_versions_main so a inp w) = Exit0"
  shows "fst (insert_versions_main so a inp (snd (insert_versions_main so a inp w))) = Exit0 \<and>
    files (snd (insert_versions_main so a inp (snd (insert_versions_main so a inp w)))) =
      files (snd (insert_versions_main so a inp w)) \<and>
    length (filter (\<lambda>v. version_of v = version_of r)
      (load_existing (files (snd (insert_versions_main so a inp
          (snd (insert_versions_main so a inp w)))) (versions_path a)))) = 1"
proof -
  let ?p = "versions_path a"
  let ?ex = "load_existing (files w ?p)"
  let ?w1 = "snd (insert_versions_main so a inp w)"
  from main_success[OF ok] obtain new d where
    tty: "\<not> isatty inp" and lok: "list_all line_ok (lines inp)" and
    new: "sort_versions so (load_lines (lines inp)) = Inr new" and
    hv: "list_all has_version ?ex" and
    res: "?w1 = w\<lparr>files := (files w)(?p := Some (map Doc (new @
                   filter (\<lambda>v. version_of v \<notin> set (map version_of new)) ?ex))),
               stderr := stderr w @ [d]\<rparr>"
    by blast
  from new one obtain r' where r': "new = [r']" "sort_version so r = Inr r'"
    by (auto split: sum.splits)
  have vr: "version_of r' = version_of r" using r'(2) by (rule sort_version_version_of)
  let ?kept = "filter (\<lambda>v. version_of v \<noteq> version_of r) ?ex"
  have ex1: "load_existing (files ?w1 ?p) = r' # ?kept"
    unfolding res by (simp add: load_existing_def load_lines_Doc r' vr)
  have "validate_version r = Inr []"
  proof -
    have "list_all (\<lambda>e. validate_version e = Inr []) (load_lines (lines inp))"
      using lok by (rule load_lines_valid)
    then show ?thesis using one by simp
  qed
  then obtain s where s: "version_of r = Some (JStr s)" using version_of_valid by blast
  have hv1: "list_all has_version (load_existing (files ?w1 ?p))"
    unfolding ex1 using hv filter_has_version[OF hv] by (simp add: has_version_def vr s)
  from main_run[OF tty lok _ new hv1] one obtain d2 where
    res2: "insert_versions_main so a inp ?w1 =
     (Exit0, ?w1\<lparr>files := (files ?w1)(?p := Some (map Doc (new @
                   filter (\<lambda>v. version_of v \<notin> set (map version_of new))
                     (load_existing (files ?w1 ?p))))),
               stderr := stderr ?w1 @ [d2]\<rparr>)"
    by auto
  have flt: "new @ filter (\<lambda>v. version_of v \<notin> set (map version_of new))
      (load_existing (files ?w1 ?p)) = r' # ?kept"
    unfolding ex1 by (simp add: r' vr)
  have f1: "files ?w1 ?p = Some (map Doc (r' # ?kept))"
    unfolding res by (simp add: r' vr del: map_append)
  have run2: "insert_versions_main so a inp ?w1 =
     (Exit0, ?w1\<lparr>files := (files ?w1)(?p := Some (map Doc (r' # ?kept))),
               stderr := stderr ?w1 @ [d2]\<rparr>)"
    using res2 unfolding flt .
  have c1: "fst (insert_versions_main so a inp ?w1) = Exit0"
    unfolding run2 by simp
  have "files (snd (insert_versions_main so a inp ?w1)) =
      (files ?w1)(?p := Some (map Doc (r' # ?kept)))"
    unfolding run2 by simp
  also have "\<dots> = files ?w1"
    using f1 by (rule fun_upd_idem)
  finally have c2: "files (snd (insert_versions_main so a inp ?w1)) = files ?w1" .
  have "filter (\<lambda>v. version_of v = version_of r) (r' # ?kept) = [r']"
    by (simp add: vr)
  then have "length (filter (\<lambda>v. version_of v = version_of r)
      (load_existing (files ?w1 ?p))) = 1"
    unfolding ex1 by simp
  then have c3: "length (filter (\<lambda>v. version_of v = version_of r)
      (load_existing (files (snd (insert_versions_main so a inp ?w1)) ?p))) = 1"
    unfolding c2 .
  from c1 c2 c3 show ?thesis by blast
qed

theorem merge_twice_witness:
  "load_lines (lines stdin_one) = [mk_version ''1.1.0''
        [mk_artifact ''linux-x64'' ''tar.gz'', mk_artifact ''darwin-arm64'' ''zip'']] \<and>
   fst (insert_versions_main no_sort args_uv stdin_one world_old) = Exit0 \<and>
   fst (insert_versions_main no_sort args_uv stdin_one
          (snd (insert_versions_main no_sort args_uv stdin_one world_old))) = Exit0 \<and>
   files (snd (insert_versions_main no_sort args_uv stdin_one
          (snd (insert_versions_main no_sort args_uv stdin_one world_old)))) =
     files (snd (insert_versions_main no_sort args_uv stdin_one world_old)) \<and>
   length (filter (\<lambda>v. version_of v = Some (JStr ''1.1.0''))
      (load_existing (files (snd (insert_versions_main no_sort args_uv stdin_one
          (snd (insert_versions_main no_sort args_uv stdin_one world_old))))
            (versions_path args_uv)))) = 1"
proof -
  have h1: "load_lines (lines stdin_one) = [mk_version ''1.1.0''
        [mk_artifact ''linux-x64'' ''tar.gz'', mk_artifact ''darwin-arm64'' ''zip'']]"
    by (simp add: stdin_one_def)
  have h2: "fst (insert_versions_main no_sort args_uv stdin_one world_old) = Exit0"
    by (simp add: eval_simps)
  have v: "version_of (mk_version ''1.1.0''
        [mk_artifact ''linux-x64'' ''tar.gz'', mk_artifact ''darwin-arm64'' ''zip''])
      = Some (JStr ''1.1.0'')"
    by (simp add: version_of_def mk_version_def)
  note c = merge_twice[OF h1 h2, unfolded v]
  show ?thesis using h1 h2 c by blast
qed







section \<open>The order of artifacts within the records of the ledger\<close>




lemma read_versions_prefix:
  "list_all line_ok pre \<Longrightarrow>
     read_versions n (pre @ rest) acc =
       read_versions (n + length pre) rest (acc @ load_lines pre)"
proof (induction pre arbitrary: n acc)
  case Nil
  then show ?case by simp
next
  case (Cons l pre)
  then show ?case by (cases l) auto
qed

lemma main_failure_shape:
  assumes "fst (insert_versions_main so a inp w) \<noteq> Exit0"
  shows "\<exists>d. snd (insert_versions_main so a inp w) = w\<lparr>stderr := stderr w @ [d]\<rparr>"
proof (cases "isatty inp")
  case True
  then show ?thesis by (force simp: insert_versions_main_def fail_def)
next
  case tty: False
  show ?thesis
  proof (cases "read_versions 1 (lines inp) []")
    case (Inl ab)
    then show ?thesis using tty
      by (cases ab) (force simp: insert_versions_main_def fail_def uncaught_def)+
  next
    case (Inr parsed)
    then have lok: "list_all line_ok (lines inp)" and pe: "parsed = load_lines (lines inp)"
      by (simp_all add: read_versions_iff)
    show ?thesis
    proof (cases "parsed = []")
      case True
      then show ?thesis using tty Inr by (force simp: insert_versions_main_def fail_def)
    next
      case ne: False
      show ?thesis
      proof (cases "sort_versions so parsed")
        case (Inl e)
        then show ?thesis using tty Inr ne
          by (force simp: insert_versions_main_def uncaught_def)
      next
        case new: (Inr new)
        have strs: "list_all (\<lambda>e. \<exists>s. version_of e = Some (JStr s)) new"
          using sorted_versions_valid lok new pe by blast
        then obtain ss where ss: "version_strings new = Inr (map JStr ss)"
          using version_strings_strs by blast
        show ?thesis
        proof (cases "dedup (map JStr ss) (load_existing (files w (versions_path a)))")
          case (Inl e)
          then show ?thesis using tty Inr ne new ss
            by (force simp: insert_versions_main_def uncaught_def Let_def)
        next
          case kept: (Inr kept)
          then have "list_all has_version (load_existing (files w (versions_path a)))"
            by (simp add: dedup_iff)
          from main_run[OF tty lok _ _ this, of so new] ne new pe assms
          show ?thesis by auto
        qed
      qed
    qed
  qed
qed

lemmas failure_simps = stdin_tty_def stdin_blank_def stdin_malformed_def stdin_invalid_def
  ledger_bad_def world_bad_def

section \<open>Failed runs leave the ledger alone\<close>

text \<open>
  Claim C6. A run on an interactive standard input, a run whose input holds no record,
  a run whose first bad line does not parse and a run whose first bad line fails
  validation each exit with status 1 after one diagnostic on standard error (for the
  last two it carries the line's number) and change no file. More generally every run
  that does not exit with status 0 leaves every file as it was, and a run that changes a
  file has parsed and validated every line of its input.
\<close>

theorem failed_run_leaves_ledger:
  "(isatty inp \<longrightarrow>
      insert_versions_main so a inp w = (Exit1, w\<lparr>stderr := stderr w @ [ExpectedNDJSON]\<rparr>)) \<and>
   (\<not> isatty inp \<and> load_lines (lines inp) = [] \<and> list_all line_ok (lines inp) \<longrightarrow>
      insert_versions_main so a inp w = (Exit1, w\<lparr>stderr := stderr w @ [NoVersions]\<rparr>)) \<and>
   (\<not> isatty inp \<and> lines inp = pre @ Malformed msg # post \<and> list_all line_ok pre \<longrightarrow>
      insert_versions_main so a inp w =
        (Exit1, w\<lparr>stderr := stderr w @ [ParseError (Suc (length pre)) msg]\<rparr>)) \<and>
   (\<not> isatty inp \<and> lines inp = pre @ Doc entry # post \<and> list_all line_ok pre \<and>
      validate_version entry = Inr errors \<and> errors \<noteq> [] \<longrightarrow>
      insert_versions_main so a inp w =
        (Exit1, w\<lparr>stderr := stderr w @ [ValidationError (Suc (length pre)) errors]\<rparr>)) \<and>
   (fst (insert_versions_main so a inp w) \<noteq> Exit0 \<longrightarrow>
      files (snd (insert_versions_main so a inp w)) = files w) \<and>
   (files (snd (insert_versions_main so a inp w)) \<noteq> files w \<longrightarrow>
      list_all line_ok (lines inp))"
proof -
  have c1: "isatty inp \<longrightarrow>
      insert_versions_main so a inp w = (Exit1, w\<lparr>stderr := stderr w @ [ExpectedNDJSON]\<rparr>)"
    by (simp add: insert_versions_main_def fail_def)
  have c2: "\<not> isatty inp \<and> load_lines (lines inp) = [] \<and> list_all line_ok (lines inp) \<longrightarrow>
      insert_versions_main so a inp w = (Exit1, w\<lparr>stderr := stderr w @ [NoVersions]\<rparr>)"
  proof (intro impI, elim conjE)
    assume h: "\<not> isatty inp" "load_lines (lines inp) = []" "list_all line_ok (lines inp)"
    then have "read_versions 1 (lines inp) [] = Inr []"
      by (simp add: read_versions_iff)
    then show "insert_versions_main so a inp w = (Exit1, w\<lparr>stderr := stderr w @ [NoVersions]\<rparr>)"
      using h(1) by (simp add: insert_versions_main_def fail_def)
  qed
  have c3: "\<not> isatty inp \<and> lines inp = pre @ Malformed msg # post \<and> list_all line_ok pre \<longrightarrow>
      insert_versions_main so a inp w =
        (Exit1, w\<lparr>stderr := stderr w @ [ParseError (Suc (length pre)) msg]\<rparr>)"
  proof (intro impI, elim conjE)
    assume h: "\<not> isatty inp" "lines inp = pre @ Malformed msg # post" "list_all line_ok pre"
    have "read_versions 1 (lines inp) [] = Inl (Quit (ParseError (Suc (length pre)) msg))"
      unfolding h(2) by (simp add: read_versions_prefix[OF h(3)])
    then show "insert_versions_main so a inp w =
        (Exit1, w\<lparr>stderr := stderr w @ [ParseError (Suc (length pre)) msg]\<rparr>)"
      using h(1) by (simp add: insert_versions_main_def fail_def)
  qed
  have c4: "\<not> isatty inp \<and> lines inp = pre @ Doc entry # post \<and> list_all line_ok pre \<and>
      validate_version entry = Inr errors \<and> errors \<noteq> [] \<longrightarrow>
      insert_versions_main so a inp w =
        (Exit1, w\<lparr>stderr := stderr w @ [ValidationError (Suc (length pre)) errors]\<rparr>)"
  proof (intro impI, elim conjE)
    assume h: "\<not> isatty inp" "lines inp = pre @ Doc entry # post" "list_all line_ok pre"
      "validate_version entry = Inr errors" "errors \<noteq> []"
    have "read_versions 1 (lines inp) [] =
        Inl (Quit (ValidationError (Suc (length pre)) errors))"
      unfolding h(2) using h(4,5) by (simp add: read_versions_prefix[OF h(3)])
    then show "insert_versions_main so a inp w =
        (Exit1, w\<lparr>stderr := stderr w @ [ValidationError (Suc (length pre)) errors]\<rparr>)"
      using h(1) by (simp add: insert_versions_main_def fail_def)
  qed
  have c5: "fst (insert_versions_main so a inp w) \<noteq> Exit0 \<longrightarrow>
      files (snd (insert_versions_main so a inp w)) = files w"
  proof
    assume "fst (insert_versions_main so a inp w) \<noteq> Exit0"
    from main_failure_shape[OF this] obtain d where
      "snd (insert_versions_main so a inp w) = w\<lparr>stderr := stderr w @ [d]\<rparr>" by blast
    then show "files (snd (insert_versions_main so a inp w)) = files w" by simp
  qed
  have c6: "files (snd (insert_versions_main so a inp w)) \<noteq> files w \<longrightarrow>
      list_all line_ok (lines inp)"
  proof
    assume "files (snd (insert_versions_main so a inp w)) \<noteq> files w"
    with c5 have "fst (insert_versions_main so a inp w) = Exit0" by blast
    from main_success[OF this] show "list_all line_ok (lines inp)" by blast
  qed
  from c1 c2 c3 c4 c5 c6 show ?thesis by blast
qed


theorem failed_run_leaves_ledger_witness:
  "insert_versions_main no_sort args_uv stdin_tty world_old =
     (Exit1, world_old\<lparr>stderr := stderr world_old @ [ExpectedNDJSON]\<rparr>) \<and>
   insert_versions_main no_sort args_uv stdin_blank world_old =
     (Exit1, world_old\<lparr>stderr := stderr world_old @ [NoVersions]\<rparr>) \<and>
   insert_versions_main no_sort args_uv stdin_malformed world_old =
     (Exit1, world_old\<lparr>stderr := stderr world_old @ [ParseError 3 ''Expecting value'']\<rparr>) \<and>
   insert_versions_main no_sort args_uv stdin_invalid world_old =
     (Exit1, world_old\<lparr>stderr := stderr world_old @
        [ValidationError 2 [InvalidArchiveFormat 0 (JStr ''rar'')]]\<rparr>) \<and>
   files (snd (insert_versions_main no_sort args_uv stdin_invalid world_old)) = files world_old \<and>
   files (snd (insert_versions_main no_sort args_uv stdin_two world_old)) \<noteq> files world_old \<and>
   list_all line_ok (lines stdin_two)"
proof -
  have p1: "isatty stdin_tty" by (simp add: stdin_tty_def)
  have c1: "insert_versions_main no_sort args_uv stdin_tty world_old =
     (Exit1, world_old\<lparr>stderr := stderr world_old @ [ExpectedNDJSON]\<rparr>)"
    using p1 failed_run_leaves_ledger[of stdin_tty no_sort args_uv world_old] by blast
  have p2: "\<not> isatty stdin_blank \<and> load_lines (lines stdin_blank) = [] \<and>
      list_all line_ok (lines stdin_blank)"
    by (simp add: stdin_blank_def)
  have c2: "insert_versions_main no_sort args_uv stdin_blank world_old =
     (Exit1, world_old\<lparr>stderr := stderr world_old @ [NoVersions]\<rparr>)"
    using p2 failed_run_leaves_ledger[of stdin_blank no_sort args_uv world_old] by blast
  have p3: "\<not> isatty stdin_malformed \<and>
      lines stdin_malformed =
        [Doc (mk_version ''2.0.0'' [mk_artifact ''linux-x64'' ''tar.gz'']), Blank] @
        Malformed ''Expecting value'' #
        [Doc (mk_version ''1.1.0'' [mk_artifact ''linux-x64'' ''tar.gz''])] \<and>
      list_all line_ok [Doc (mk_version ''2.0.0'' [mk_artifact ''linux-x64'' ''tar.gz'']), Blank]"
    by (simp add: stdin_malformed_def eval_simps)
  have c3: "insert_versions_main no_sort args_uv stdin_malformed world_old =
     (Exit1, world_old\<lparr>stderr := stderr world_old @ [ParseError 3 ''Expecting value'']\<rparr>)"
    using p3 failed_run_leaves_ledger[where inp = stdin_malformed and so = no_sort
        and a = args_uv and w = world_old
        and pre = "[Doc (mk_version ''2.0.0'' [mk_artifact ''linux-x64'' ''tar.gz'']), Blank]"
        and msg = "''Expecting value''"
        and post = "[Doc (mk_version ''1.1.0'' [mk_artifact ''linux-x64'' ''tar.gz''])]"]
    by (simp add: numeral_3_eq_3)
  have p4: "\<not> isatty stdin_invalid \<and>
      lines stdin_invalid = [Blank] @
        Doc (mk_version ''2.0.0'' [mk_artifact ''linux-x64'' ''rar'']) #
        [Doc (mk_version ''1.1.0'' [mk_artifact ''linux-x64'' ''tar.gz''])] \<and>
      list_all line_ok [Blank] \<and>
      validate_version (mk_version ''2.0.0'' [mk_artifact ''linux-x64'' ''rar'']) =
        Inr [InvalidArchiveFormat 0 (JStr ''rar'')] \<and>
      [InvalidArchiveFormat 0 (JStr ''rar'')] \<noteq> []"
    by (simp add: stdin_invalid_def eval_simps)
  have c4: "insert_versions_main no_sort args_uv stdin_invalid world_old =
     (Exit1, world_old\<lparr>stderr := stderr world_old @
        [ValidationError 2 [InvalidArchiveFormat 0 (JStr ''rar'')]]\<rparr>)"
    using p4 failed_run_leaves_ledger[where inp = stdin_invalid and so = no_sort
        and a = args_uv and w = world_old and pre = "[Blank]"
        and entry = "mk_version ''2.0.0'' [mk_artifact ''linux-x64'' ''rar'']"
        and post = "[Doc (mk_version ''1.1.0'' [mk_artifact ''linux-x64'' ''tar.gz''])]"
        and errors = "[InvalidArchiveFormat 0 (JStr ''rar'')]"]
    by (simp add: numeral_2_eq_2)
  have p5: "fst (insert_versions_main no_sort args_uv stdin_invalid world_old) \<noteq> Exit0"
    unfolding c4 by simp
  have c5: "files (snd (insert_versions_main no_sort args_uv stdin_invalid world_old)) =
      files world_old"
    using p5 failed_run_leaves_ledger[of stdin_invalid no_sort args_uv world_old] by blast
  have "files (snd (insert_versions_main no_sort args_uv stdin_two world_old))
      (versions_path args_uv) \<noteq> files world_old (versions_path args_uv)"
    by (simp add: eval_simps)
  then have p6: "files (snd (insert_versions_main no_sort args_uv stdin_two world_old)) \<noteq>
      files world_old"
    by metis
  have c6: "list_all line_ok (lines stdin_two)"
    using p6 failed_run_leaves_ledger[of stdin_two no_sort args_uv world_old] by blast
  from c1 c2 c3 c4 c5 p6 c6 show ?thesis by blast
qed

section \<open>Structurally invalid records in the existing ledger\<close>

text \<open>
  Claim C10. When the input is accepted and sorted but the existing ledger holds a line
  that parses to a value on which \<^verbatim>\<open>v["version"]\<close> raises (a value that is no
  object, or an object with no \<^verbatim>\<open>version\<close> key), the run ends with an uncaught
  KeyError or TypeError and changes no file.
\<close>

theorem bad_existing_record_aborts:
  assumes "\<not> isatty inp" and "list_all line_ok (lines inp)"
    and "load_lines (lines inp) \<noteq> []"
    and "sort_versions so (load_lines (lines inp)) = Inr new"
    and "v \<in> set (load_existing (files w (versions_path a)))"
    and "version_of v = None"
  shows "(fst (insert_versions_main so a inp w) = Uncaught KeyError \<or>
          fst (insert_versions_main so a inp w) = Uncaught TypeError) \<and>
         files (snd (insert_versions_main so a inp w)) = files w"
proof -
  let ?ex = "load_existing (files w (versions_path a))"
  have parsed: "read_versions 1 (lines inp) [] = Inr (load_lines (lines inp))"
    using assms(2) by (simp add: read_versions_iff)
  have strs: "list_all (\<lambda>e. \<exists>s. version_of e = Some (JStr s)) new"
    using sorted_versions_valid assms(2,4) by blast
  then obtain ss where ss: "version_strings new = Inr (map JStr ss)"
    using version_strings_strs by blast
  have "\<not> has_version v" using assms(6) by (simp add: has_version_def)
  then have "\<not> list_all has_version ?ex" using assms(5) by (auto simp: list_all_iff)
  then obtain e where e: "dedup (map JStr ss) ?ex = Inl e"
    by (cases "dedup (map JStr ss) ?ex") (auto simp: dedup_iff)
  then have ke: "e = KeyError \<or> e = TypeError" by (rule dedup_error)
  have "insert_versions_main so a inp w = uncaught w e"
    using assms(1,3,4) parsed ss e by (simp add: insert_versions_main_def Let_def)
  then show ?thesis using ke by (auto simp: uncaught_def)
qed

text \<open>An existing ledger whose second line is an object with only a \<^verbatim>\<open>date\<close>: KeyError.\<close>

theorem bad_existing_record_aborts_witness:
  "\<not> isatty stdin_two \<and> list_all line_ok (lines stdin_two) \<and>
   load_lines (lines stdin_two) \<noteq> [] \<and>
   JObj [(''date'', JStr ''2024-01-01T00:00:00Z'')] \<in>
     set (load_existing (files world_bad (versions_path args_uv))) \<and>
   version_of (JObj [(''date'', JStr ''2024-01-01T00:00:00Z'')]) = None \<and>
   fst (insert_versions_main no_sort args_uv stdin_two world_bad) = Uncaught KeyError \<and>
   files (snd (insert_versions_main no_sort args_uv stdin_two world_bad)) = files world_bad"
proof -
  have h1: "\<not> isatty stdin_two" by (simp add: stdin_two_def)
  have h2: "list_all line_ok (lines stdin_two)" by (simp add: eval_simps)
  have h3: "load_lines (lines stdin_two) \<noteq> []" by (simp add: stdin_two_def)
  have h4: "sort_versions no_sort (load_lines (lines stdin_two)) =
      Inr [mk_version ''2.0.0''
             [mk_artifact ''darwin-arm64'' ''zip'', mk_artifact ''linux-x64'' ''tar.gz''],
           mk_version ''1.1.0'' [mk_artifact ''linux-x64'' ''tar.gz'']]"
    by (simp add: eval_simps)
  have h5: "JObj [(''date'', JStr ''2024-01-01T00:00:00Z'')] \<in>
     set (load_existing (files world_bad (versions_path args_uv)))"
    by (simp add: eval_simps failure_simps)
  have h6: "version_of (JObj [(''date'', JStr ''2024-01-01T00:00:00Z'')]) = None"
    by (simp add: version_of_def)
  have k: "fst (insert_versions_main no_sort args_uv stdin_two world_bad) = Uncaught KeyError"
    by (simp add: eval_simps failure_simps)
  from bad_existing_record_aborts[OF h1 h2 h3 h4 h5 h6] h1 h2 h3 h5 h6 k
  show ?thesis by blast
qed

lemma check_artifact_MissingKeys:
  "check_artifact n a = Inr msgs \<Longrightarrow>
     MissingKeys i ks \<in> set msgs \<longleftrightarrow>
       i = n \<and> (\<exists>art. a = JObj art \<and> missing_keys art \<noteq> [] \<and> ks = sort (missing_keys art))"
  by (cases a) (auto simp: Let_def split: if_splits option.splits)

lemma check_artifact_Invalid:
  "check_artifact n a = Inr msgs \<Longrightarrow>
     InvalidArchiveFormat i fmt \<in> set msgs \<longleftrightarrow>
       i = n \<and> (\<exists>art. a = JObj art \<and> missing_keys art = [] \<and>
          map_of art ''archive_format'' = Some fmt \<and> fmt \<notin> JStr ` set VALID_ARCHIVE_FORMATS)"
  by (cases a) (auto simp: Let_def list_ex_py_eq_strs split: if_splits option.splits)

lemma validate_artifacts_Cons:
  "validate_artifacts n (a # arts) [] = Inr out \<Longrightarrow>
     \<exists>msgs out'. check_artifact n a = Inr msgs \<and> validate_artifacts (Suc n) arts [] = Inr out' \<and>
        out = msgs @ out'"
proof -
  assume h: "validate_artifacts n (a # arts) [] = Inr out"
  then obtain msgs where m: "check_artifact n a = Inr msgs"
    by (cases "check_artifact n a") auto
  with h have "validate_artifacts (Suc n) arts msgs = Inr out" by simp
  then show ?thesis using m validate_artifacts_acc[of "Suc n" arts msgs]
    by (auto split: sum.splits)
qed

lemma validate_artifacts_MissingKeys:
  "validate_artifacts n arts [] = Inr out \<Longrightarrow>
     MissingKeys i ks \<in> set out \<longleftrightarrow>
       n \<le> i \<and> i < n + length arts \<and>
       (\<exists>art. arts ! (i - n) = JObj art \<and> missing_keys art \<noteq> [] \<and> ks = sort (missing_keys art))"
proof (induction arts arbitrary: n out)
  case Nil
  then show ?case by auto
next
  case (Cons a arts)
  from validate_artifacts_Cons[OF Cons.prems] obtain msgs out' where
    m: "check_artifact n a = Inr msgs" "validate_artifacts (Suc n) arts [] = Inr out'"
       "out = msgs @ out'"
    by blast
  note h = check_artifact_MissingKeys[OF m(1), of i ks] Cons.IH[OF m(2)]
  show ?case
  proof (cases "i = n")
    case True
    then show ?thesis unfolding m(3) using h by auto
  next
    case False
    show ?thesis
    proof (cases "n < i")
      case True
      then have nth: "(a # arts) ! (i - n) = arts ! (i - Suc n)"
        by (simp add: nth_Cons')
      have le: "n \<le> i" "Suc n \<le> i" using True by auto
      show ?thesis unfolding m(3) nth using h False le by simp
    next
      case lt: False
      then have "\<not> n \<le> i" "\<not> Suc n \<le> i" using False by auto
      then show ?thesis unfolding m(3) using h False by simp
    qed
  qed
qed

lemma validate_artifacts_Invalid:
  "validate_artifacts n arts [] = Inr out \<Longrightarrow>
     InvalidArchiveFormat i fmt \<in> set out \<longleftrightarrow>
       n \<le> i \<and> i < n + length arts \<and>
       (\<exists>art. arts ! (i - n) = JObj art \<and> missing_keys art = [] \<and>
          map_of art ''archive_format'' = Some fmt \<and> fmt \<notin> JStr ` set VALID_ARCHIVE_FORMATS)"
proof (induction arts arbitrary: n out)
  case Nil
  then show ?case by auto
next
  case (Cons a arts)
  from validate_artifacts_Cons[OF Cons.prems] obtain msgs out' where
    m: "check_artifact n a = Inr msgs" "validate_artifacts (Suc n) arts [] = Inr out'"
       "out = msgs @ out'"
    by blast
  note h = check_artifact_Invalid[OF m(1), of i fmt] Cons.IH[OF m(2)]
  show ?case
  proof (cases "i = n")
    case True
    then show ?thesis unfolding m(3) using h by auto
  next
    case False
    show ?thesis
    proof (cases "n < i")
      case True
      then have nth: "(a # arts) ! (i - n) = arts ! (i - Suc n)"
        by (simp add: nth_Cons')
      have le: "n \<le> i" "Suc n \<le> i" using True by auto
      show ?thesis unfolding m(3) nth using h False le by simp
    next
      case lt: False
      then have "\<not> n \<le> i" "\<not> Suc n \<le> i" using False by auto
      then show ?thesis unfolding m(3) using h False by simp
    qed
  qed
qed



lemma validate_version_unfold:
  assumes "map_of entry ''artifacts'' = Some (JArr artifacts)"
  shows "validate_version (JObj entry) =
     (if artifacts = [] then
        Inr ((if nonempty_str (map_of entry ''version'') then [] else [MissingVersion]) @
             (if nonempty_str (map_of entry ''date'') then [] else [MissingDate]) @
             [MissingArtifacts])
      else validate_artifacts 0 artifacts
            ((if nonempty_str (map_of entry ''version'') then [] else [MissingVersion]) @
             (if nonempty_str (map_of entry ''date'') then [] else [MissingDate])))"
proof (cases artifacts)
  case Nil
  then show ?thesis using assms by (simp add: Let_def)
next
  case (Cons a as)
  then show ?thesis using assms
    by (simp add: Let_def del: validate_artifacts.simps)
qed

lemma validate_version_split:
  assumes "validate_version (JObj entry) = Inr errors"
    and "map_of entry ''artifacts'' = Some (JArr artifacts)"
  shows "\<exists>hdr out. errors = hdr @ out \<and> set hdr \<subseteq> {MissingVersion, MissingDate} \<and>
           (if artifacts = [] then out = [MissingArtifacts]
            else validate_artifacts 0 artifacts [] = Inr out)"
proof -
  let ?hdr = "(if nonempty_str (map_of entry ''version'') then [] else [MissingVersion]) @
              (if nonempty_str (map_of entry ''date'') then [] else [MissingDate])"
  have hs: "set ?hdr \<subseteq> {MissingVersion, MissingDate}" by simp
  show ?thesis
  proof (cases "artifacts = []")
    case True
    then have "validate_version (JObj entry) = Inr (?hdr @ [MissingArtifacts])"
      using validate_version_unfold[OF assms(2)] by simp
    with assms(1) have "errors = ?hdr @ [MissingArtifacts]" by simp
    with hs True show ?thesis
      by (intro exI[of _ ?hdr] exI[of _ "[MissingArtifacts]"]) (simp only: if_True simp_thms)
  next
    case False
    then have "validate_version (JObj entry) = validate_artifacts 0 artifacts ?hdr"
      using validate_version_unfold[OF assms(2)] by simp
    with assms(1) have v: "validate_artifacts 0 artifacts ?hdr = Inr errors" by simp
    have acc: "validate_artifacts 0 artifacts ?hdr =
        (case validate_artifacts 0 artifacts [] of Inl e \<Rightarrow> Inl e
         | Inr out \<Rightarrow> Inr (?hdr @ out))"
      by (rule validate_artifacts_acc)
    show ?thesis
    proof (cases "validate_artifacts 0 artifacts []")
      case (Inl e)
      then have "validate_artifacts 0 artifacts ?hdr = Inl e"
        unfolding acc by (simp only: sum.case)
      with v show ?thesis by (simp only: sum.distinct)
    next
      case (Inr out)
      then have "validate_artifacts 0 artifacts ?hdr = Inr (?hdr @ out)"
        unfolding acc by (simp only: sum.case)
      with v have "errors = ?hdr @ out" by (simp only: sum.inject)
      with Inr hs False show ?thesis
        by (intro exI[of _ ?hdr] exI[of _ out]) (simp only: if_False simp_thms)
    qed
  qed
qed

lemma set_sort_missing_keys:
  "set (sort (missing_keys art)) = set REQUIRED_ARTIFACT_KEYS - fst ` set art"
  by (auto simp: missing_keys_def map_of_eq_None_iff)

lemmas entry_simps = entry_rar_def entry_mixed_def

section \<open>What the validation messages name\<close>

text \<open>
  Claim C5, as amended. Let validation of an incoming record with an \<^verbatim>\<open>artifacts\<close>
  list return its messages. A message that artifact \<open>i\<close> misses keys is among them
  exactly when artifact \<open>i\<close> is an object that lacks a required key, and it lists
  exactly the required keys that the object lacks, sorted. A message that artifact
  \<open>i\<close> has an invalid \<^verbatim>\<open>archive_format\<close> is among them exactly when artifact
  \<open>i\<close> is an object with all five required keys whose \<^verbatim>\<open>archive_format\<close> is not
  one of the three valid values, and it carries that value. An object that lacks a key
  is not examined further. The record is rejected with all the messages when there is
  one, and accepted otherwise.
\<close>

theorem validation_messages:
  assumes "validate_version (JObj entry) = Inr errors"
    and "map_of entry ''artifacts'' = Some (JArr artifacts)"
  shows "(MissingKeys i ks \<in> set errors \<longleftrightarrow>
            i < length artifacts \<and>
            (\<exists>art. artifacts ! i = JObj art \<and> missing_keys art \<noteq> [] \<and>
                   ks = sort (missing_keys art))) \<and>
         (InvalidArchiveFormat i fmt \<in> set errors \<longleftrightarrow>
            i < length artifacts \<and>
            (\<exists>art. artifacts ! i = JObj art \<and> missing_keys art = [] \<and>
                   map_of art ''archive_format'' = Some fmt \<and>
                   fmt \<notin> JStr ` set VALID_ARCHIVE_FORMATS)) \<and>
         set (sort (missing_keys art)) = set REQUIRED_ARTIFACT_KEYS - fst ` set art \<and>
         (if errors = [] then read_versions lineno (Doc (JObj entry) # rest) acc =
              read_versions (Suc lineno) rest (acc @ [JObj entry])
          else read_versions lineno (Doc (JObj entry) # rest) acc =
              Inl (Quit (ValidationError lineno errors)))"
proof -
  from validate_version_split[OF assms] obtain hdr out where
    e: "errors = hdr @ out" and hdr: "set hdr \<subseteq> {MissingVersion, MissingDate}" and
    out: "if artifacts = [] then out = [MissingArtifacts]
          else validate_artifacts 0 artifacts [] = Inr out"
    by blast
  have nh: "MissingKeys i ks \<notin> set hdr" "InvalidArchiveFormat i fmt \<notin> set hdr"
    using hdr by auto
  have c1: "MissingKeys i ks \<in> set errors \<longleftrightarrow>
            i < length artifacts \<and>
            (\<exists>art. artifacts ! i = JObj art \<and> missing_keys art \<noteq> [] \<and>
                   ks = sort (missing_keys art))"
  proof (cases "artifacts = []")
    case True
    then show ?thesis using e nh out by simp
  next
    case False
    then have "validate_artifacts 0 artifacts [] = Inr out" using out by simp
    from validate_artifacts_MissingKeys[OF this, of i ks] show ?thesis
      using e nh by simp
  qed
  have c2: "InvalidArchiveFormat i fmt \<in> set errors \<longleftrightarrow>
            i < length artifacts \<and>
            (\<exists>art. artifacts ! i = JObj art \<and> missing_keys art = [] \<and>
                   map_of art ''archive_format'' = Some fmt \<and>
                   fmt \<notin> JStr ` set VALID_ARCHIVE_FORMATS)"
  proof (cases "artifacts = []")
    case True
    then show ?thesis using e nh out by simp
  next
    case False
    then have "validate_artifacts 0 artifacts [] = Inr out" using out by simp
    from validate_artifacts_Invalid[OF this, of i fmt] show ?thesis
      using e nh by simp
  qed
  have c4: "if errors = [] then read_versions lineno (Doc (JObj entry) # rest) acc =
              read_versions (Suc lineno) rest (acc @ [JObj entry])
          else read_versions lineno (Doc (JObj entry) # rest) acc =
              Inl (Quit (ValidationError lineno errors))"
    using assms(1) by simp
  have c3: "set (sort (missing_keys art)) = set REQUIRED_ARTIFACT_KEYS - fst ` set art"
    by (rule set_sort_missing_keys)
  show ?thesis using c1 c2 c3 c4 by (intro conjI) assumption+
qed




theorem validation_messages_witness:
  "validate_version entry_mixed =
     Inr [MissingVersion, MissingDate, InvalidArchiveFormat 0 (JStr ''rar''),
          MissingKeys 1 [''archive_format'', ''sha256'', ''variant''], NotAnObject 2] \<and>
   MissingKeys 1 [''archive_format'', ''sha256'', ''variant''] \<in>
     set [MissingVersion, MissingDate, InvalidArchiveFormat 0 (JStr ''rar''),
          MissingKeys 1 [''archive_format'', ''sha256'', ''variant''], NotAnObject 2] \<and>
   1 < length [mk_artifact ''linux-x64'' ''rar'',
      JObj [(''platform'', JStr ''linux-x64''), (''url'', JStr ''https://x/y'')],
      JStr ''oops'', mk_artifact ''darwin-arm64'' ''zip'']"
proof -
  let ?kvs = "[(''version'', JStr []), (''artifacts'', JArr
     [mk_artifact ''linux-x64'' ''rar'',
      JObj [(''platform'', JStr ''linux-x64''), (''url'', JStr ''https://x/y'')],
      JStr ''oops'',
      mk_artifact ''darwin-arm64'' ''zip''])]"
  let ?arts = "[mk_artifact ''linux-x64'' ''rar'',
      JObj [(''platform'', JStr ''linux-x64''), (''url'', JStr ''https://x/y'')],
      JStr ''oops'', mk_artifact ''darwin-arm64'' ''zip'']"
  let ?errs = "[MissingVersion, MissingDate, InvalidArchiveFormat 0 (JStr ''rar''),
          MissingKeys 1 [''archive_format'', ''sha256'', ''variant''], NotAnObject 2]"
  have h1: "validate_version (JObj ?kvs) = Inr ?errs"
    by (simp add: eval_simps)
  have h2: "map_of ?kvs ''artifacts'' = Some (JArr ?arts)"
    by simp
  have m: "MissingKeys 1 [''archive_format'', ''sha256'', ''variant''] \<in> set ?errs"
    by simp
  note vm = validation_messages[OF h1 h2, of 1 "[''archive_format'', ''sha256'', ''variant'']",
      THEN conjunct1, THEN iffD1, OF m, THEN conjunct1]
  have e: "validate_version entry_mixed = Inr ?errs"
    unfolding entry_mixed_def by (rule h1)
  from e m vm show ?thesis by (intro conjI)
qed

text \<open>An artifact with \<^verbatim>\<open>archive_format\<close> "rar" that also lacks three keys is
  reported for the keys only: no message names the value "rar".\<close>

theorem unnamed_archive_format_counterexample:
  "validate_version entry_rar = Inr [MissingKeys 0 [''sha256'', ''url'', ''variant'']] \<and>
   entry_rar = mk_version ''1.0.0''
     [JObj [(''platform'', JStr ''linux-x64''), (''archive_format'', JStr ''rar'')]] \<and>
   ''rar'' \<notin> set VALID_ARCHIVE_FORMATS"
  by (simp add: eval_simps entry_simps)

section \<open>Lemmas about the converter\<close>

lemmas conv_simps = manifest_uv_def sha256_url_uv_def client_deadbeef_def client_blank_def
  str_none_def state0_def plan_uv_def
  extract_version_info_def extract_github_info_def get_or_empty_def process_artifact_def
  fetch_artifact_def fetch_sha256_def release_url_def startswith_def endswith_def
  get_archive_format_def is_success_def py_split_def strip_def is_space_def
  sort_artifacts_def convert_main_def Let_def

lemma success_not_404: "is_success status_code \<Longrightarrow> status_code \<noteq> 404"
  by (simp add: is_success_def)

lemma py_split_body:
  "py_split (strip ''deadbeef  uv-x86_64-unknown-linux-gnu.tar.gz'') =
     [''deadbeef'', ''uv-x86_64-unknown-linux-gnu.tar.gz'']"
  by (simp add: py_split_def strip_def is_space_def)

lemma fetch_success:
  assumes "client (calls s) url = Response status_code body" and "is_success status_code"
  shows "fetch_sha256 client url s =
     (case py_split (strip body) of
        [] \<Rightarrow> (Inl IndexError, s\<lparr>calls := Suc (calls s)\<rparr>)
      | token # tokens \<Rightarrow> (Inr (Some token), s\<lparr>calls := Suc (calls s)\<rparr>))"
  using assms success_not_404[OF assms(2)] by (simp add: fetch_sha256_def Let_def)

section \<open>The scenario of one Linux archive\<close>

text \<open>
  Claim C8. For the manifest with \<^verbatim>\<open>announcement_tag\<close> "v1.0.0" and one release of
  \<^verbatim>\<open>app_name\<close> "uv" with the artifacts \<^verbatim>\<open>uv-x86_64-unknown-linux-gnu.tar.gz\<close>
  and its \<^verbatim>\<open>.sha256\<close> file, when the request for the checksum URL answers with a
  success status and the body "deadbeef  uv-x86_64-unknown-linux-gnu.tar.gz", the
  converter sends that one request and returns a record with exactly one artifact: its
  platform the file name without the prefix "uv-" and the extension, its archive format
  "tar.gz", its checksum "deadbeef", the first token of the body.
\<close>

theorem scenario_uv:
  assumes "client (calls s) sha256_url_uv =
      Response status_code ''deadbeef  uv-x86_64-unknown-linux-gnu.tar.gz''"
    and "is_success status_code"
  shows "extract_version_info client str_other sort_other now manifest_uv s =
    (Inr (JObj [(''version'', JStr ''v1.0.0''), (''date'', JStr now),
       (''artifacts'', JArr [JObj
          [(''platform'', JStr ''x86_64-unknown-linux-gnu''),
           (''variant'', JStr ''default''),
           (''url'', JStr ''https://github.com/astral-sh/uv/releases/download/v1.0.0/uv-x86_64-unknown-linux-gnu.tar.gz''),
           (''archive_format'', JStr ''tar.gz''),
           (''sha256'', JStr ''deadbeef'')]])]),
     s\<lparr>calls := Suc (calls s)\<rparr>)"
proof -
  have f: "fetch_sha256 client sha256_url_uv s =
      (Inr (Some ''deadbeef''), s\<lparr>calls := Suc (calls s)\<rparr>)"
    unfolding fetch_success[where client = client and s = s, OF assms] py_split_body by simp
  have u: "release_url str_other
      \<lparr>version = JStr ''v1.0.0'', github_org = JStr ''astral-sh'', github_repo = JStr ''uv'',
       app_name = JStr ''uv''\<rparr> ''uv-x86_64-unknown-linux-gnu.tar.gz'' @ ''.sha256'' =
      sha256_url_uv"
    by (simp add: release_url_def sha256_url_uv_def)
  have fa: "fetch_artifact client str_other
      \<lparr>version = JStr ''v1.0.0'', github_org = JStr ''astral-sh'', github_repo = JStr ''uv'',
       app_name = JStr ''uv''\<rparr> ''uv-x86_64-unknown-linux-gnu.tar.gz''
       ''x86_64-unknown-linux-gnu'' s =
      (Inr (Some (JObj
          [(''platform'', JStr ''x86_64-unknown-linux-gnu''),
           (''variant'', JStr ''default''),
           (''url'', JStr ''https://github.com/astral-sh/uv/releases/download/v1.0.0/uv-x86_64-unknown-linux-gnu.tar.gz''),
           (''archive_format'', JStr ''tar.gz''),
           (''sha256'', JStr ''deadbeef'')])), s\<lparr>calls := Suc (calls s)\<rparr>)"
    unfolding fetch_artifact_def u f
    by (simp add: release_url_def get_archive_format_def endswith_def)
  have p1: "process_artifact client str_other
      \<lparr>version = JStr ''v1.0.0'', github_org = JStr ''astral-sh'', github_repo = JStr ''uv'',
       app_name = JStr ''uv''\<rparr> (JStr ''uv-x86_64-unknown-linux-gnu.tar.gz'') s =
      fetch_artifact client str_other
      \<lparr>version = JStr ''v1.0.0'', github_org = JStr ''astral-sh'', github_repo = JStr ''uv'',
       app_name = JStr ''uv''\<rparr> ''uv-x86_64-unknown-linux-gnu.tar.gz''
       ''x86_64-unknown-linux-gnu'' s"
    by (simp add: process_artifact_def startswith_def endswith_def)
  have p2: "process_artifact client str_other
      \<lparr>version = JStr ''v1.0.0'', github_org = JStr ''astral-sh'', github_repo = JStr ''uv'',
       app_name = JStr ''uv''\<rparr> (JStr ''uv-x86_64-unknown-linux-gnu.tar.gz.sha256'') s' =
      (Inr None, s')" for s'
    by (simp add: process_artifact_def startswith_def endswith_def)
  have g: "extract_github_info manifest_uv = Inr (JStr ''astral-sh'', JStr ''uv'', JStr ''uv'')"
    by (simp add: extract_github_info_def manifest_uv_def get_or_empty_def)
  show ?thesis
    unfolding extract_version_info_def g
    by (simp add: manifest_uv_def get_or_empty_def p1 fa p2 sort_artifacts_def)
qed

theorem scenario_uv_witness:
  "client_deadbeef (calls state0) sha256_url_uv =
      Response 200 ''deadbeef  uv-x86_64-unknown-linux-gnu.tar.gz'' \<and>
   is_success 200 \<and>
   extract_version_info client_deadbeef str_none no_sort ''2024-01-01T00:00:00+00:00''
       manifest_uv state0 =
    (Inr (JObj [(''version'', JStr ''v1.0.0''), (''date'', JStr ''2024-01-01T00:00:00+00:00''),
       (''artifacts'', JArr [JObj
          [(''platform'', JStr ''x86_64-unknown-linux-gnu''),
           (''variant'', JStr ''default''),
           (''url'', JStr ''https://github.com/astral-sh/uv/releases/download/v1.0.0/uv-x86_64-unknown-linux-gnu.tar.gz''),
           (''archive_format'', JStr ''tar.gz''),
           (''sha256'', JStr ''deadbeef'')]])]),
     state0\<lparr>calls := Suc (calls state0)\<rparr>)"
proof -
  have h1: "client_deadbeef (calls state0) sha256_url_uv =
      Response 200 ''deadbeef  uv-x86_64-unknown-linux-gnu.tar.gz''"
    by (simp add: client_deadbeef_def)
  have h2: "is_success 200" by (simp add: is_success_def)
  from h1 h2 scenario_uv[where client = client_deadbeef and s = state0, OF h1 h2]
  show ?thesis by (intro conjI)
qed

lemma all_space_split: "list_all is_space body \<Longrightarrow> py_split (strip body) = []"
proof -
  assume "list_all is_space body"
  then have d: "dropWhile is_space body = []" by (simp add: list_all_iff)
  show ?thesis unfolding strip_def py_split_def d by simp
qed

lemma fetch_attempts_bounds:
  "calls s \<le> calls (snd (fetch_attempts client url attempts s)) \<and>
   calls (snd (fetch_attempts client url attempts s)) \<le> calls s + length attempts \<and>
   (attempts \<noteq> [] \<longrightarrow> calls s < calls (snd (fetch_attempts client url attempts s)))"
proof (induction attempts arbitrary: s)
  case Nil
  then show ?case by simp
next
  case (Cons attempt rest)
  show ?case
  proof (cases "client (calls s) url")
    case TransportFailure
    then show ?thesis by simp
  next
    case (Response status_code body)
    let ?s1 = "s\<lparr>calls := Suc (calls s), slept := slept s @ [2 ^ attempt]\<rparr>"
    have ih: "calls ?s1 \<le> calls (snd (fetch_attempts client url rest ?s1)) \<and>
        calls (snd (fetch_attempts client url rest ?s1)) \<le> calls ?s1 + length rest"
      using Cons.IH[of ?s1] by blast
    show ?thesis using Response ih by (simp add: Let_def split: list.splits)
  qed
qed

lemma fetch_slept:
  "slept (snd (fetch_sha256 client url s)) =
     slept s @ take (calls (snd (fetch_sha256 client url s)) - Suc (calls s)) [2, 4]"
proof (cases "client (calls s) url")
  case TransportFailure
  then show ?thesis by (simp add: fetch_sha256_def)
next
  case r1: (Response st1 b1)
  show ?thesis
  proof (cases "(st1 = 502 \<or> st1 = 503 \<or> st1 = 504)")
    case False
    then show ?thesis using r1 by (simp add: fetch_sha256_def Let_def split: list.splits)
  next
    case t1: True
    then have n1: "\<not> is_success st1" "st1 \<noteq> 404" by (auto simp: is_success_def)
    show ?thesis
    proof (cases "client (Suc (calls s)) url")
      case TransportFailure
      then show ?thesis using r1 t1 n1 by (simp add: fetch_sha256_def Let_def split: list.splits)
    next
      case r2: (Response st2 b2)
      show ?thesis
      proof (cases "(st2 = 502 \<or> st2 = 503 \<or> st2 = 504)")
        case False
        then show ?thesis using r1 t1 n1 r2 by (simp add: fetch_sha256_def Let_def split: list.splits)
      next
        case t2: True
        then have n2: "\<not> is_success st2" "st2 \<noteq> 404" by (auto simp: is_success_def)
        show ?thesis
        proof (cases "client (Suc (Suc (calls s))) url")
          case TransportFailure
          then show ?thesis using r1 t1 n1 r2 t2 n2 by (simp add: fetch_sha256_def Let_def split: list.splits)
        next
          case r3: (Response st3 b3)
          then show ?thesis using r1 t1 n1 r2 t2 n2 by (simp add: fetch_sha256_def Let_def split: list.splits)
        qed
      qed
    qed
  qed
qed


lemma fetch_artifact_none:
  assumes "fst (fetch_sha256 client (release_url str_other i artifact_name @ ''.sha256'') s) =
      Inr None"
  shows "fetch_artifact client str_other i artifact_name platform s =
     (Inr None,
      (snd (fetch_sha256 client (release_url str_other i artifact_name @ ''.sha256'') s))
        \<lparr>conv_stderr :=
           conv_stderr (snd (fetch_sha256 client
              (release_url str_other i artifact_name @ ''.sha256'') s)) @
           [Warning artifact_name]\<rparr>)"
  using assms
  by (cases "fetch_sha256 client (release_url str_other i artifact_name @ ''.sha256'') s")
     (simp add: fetch_artifact_def)

lemma retryable_not_success: "retryable st \<Longrightarrow> \<not> is_success st \<and> st \<noteq> 404"
  by (auto simp: retryable_def is_success_def)

lemma attempt_none:
  assumes "client (calls s) url = Response st b" and "\<not> is_success st"
    and "\<not> retryable st \<or> \<not> attempt < 3"
  shows "fetch_attempts client url (attempt # rest) s = (Inr None, s\<lparr>calls := Suc (calls s)\<rparr>)"
  using assms by (auto simp: Let_def retryable_def)

lemma attempt_some:
  assumes "client (calls s) url = Response st b" and "is_success st"
    and "py_split (strip b) = token # tokens"
  shows "fetch_attempts client url (attempt # rest) s =
     (Inr (Some token), s\<lparr>calls := Suc (calls s)\<rparr>)"
  using assms success_not_404[OF assms(2)] by (simp add: Let_def)

lemma attempt_raise:
  assumes "client (calls s) url = TransportFailure"
  shows "fetch_attempts client url (attempt # rest) s =
     (Inl TransportError, s\<lparr>calls := Suc (calls s)\<rparr>)"
  using assms by simp

lemma attempt_retry:
  assumes "client (calls s) url = Response st b" and "retryable st" and "attempt < 3"
  shows "fetch_attempts client url (attempt # rest) s =
     fetch_attempts client url rest
       (s\<lparr>calls := Suc (calls s), slept := slept s @ [2 ^ attempt]\<rparr>)"
  using assms retryable_not_success[OF assms(2)] by (simp add: Let_def retryable_def)

lemma retried_skip:
  assumes "retried client url (calls s) k" and "k \<le> 2"
  shows "fetch_sha256 client url s =
     fetch_attempts client url (drop k [1, 2, 3])
       (s\<lparr>calls := calls s + k, slept := slept s @ take k [2, 4]\<rparr>)"
proof -
  consider "k = 0" | "k = 1" | "k = 2" using assms(2) by linarith
  then show ?thesis
  proof cases
    case 1
    then show ?thesis by (simp add: fetch_sha256_def)
  next
    case 2
    with assms(1) obtain st b where r: "client (calls s) url = Response st b" "retryable st"
      by (auto split: get_outcome.splits)
    have "fetch_attempts client url [1, 2, 3] s =
        fetch_attempts client url [2, 3]
          (s\<lparr>calls := Suc (calls s), slept := slept s @ [2 ^ 1]\<rparr>)"
      using r by (intro attempt_retry) simp_all
    then show ?thesis using 2 by (simp add: fetch_sha256_def)
  next
    case 3
    then have k: "k = Suc (Suc 0)" by simp
    from assms(1) obtain st b st' b' where
      r: "client (calls s) url = Response st b" "retryable st"
         "client (Suc (calls s)) url = Response st' b'" "retryable st'"
      unfolding k by (auto split: get_outcome.splits)
    let ?s1 = "s\<lparr>calls := Suc (calls s), slept := slept s @ [2 ^ 1]\<rparr>"
    have a1: "fetch_attempts client url [1, 2, 3] s = fetch_attempts client url [2, 3] ?s1"
      using r(1,2) by (intro attempt_retry) simp_all
    have a2: "fetch_attempts client url [2, 3] ?s1 =
        fetch_attempts client url [3]
          (?s1\<lparr>calls := Suc (calls ?s1), slept := slept ?s1 @ [2 ^ 2]\<rparr>)"
      using r(3,4) by (intro attempt_retry[where st = st' and b = b']) simp_all
    show ?thesis unfolding fetch_sha256_def a1 a2 using 3 by simp
  qed
qed

lemma drop_attempts:
  "k \<le> 2 \<Longrightarrow> \<exists>rest. drop k [1, 2, 3::nat] = Suc k # rest"
proof -
  assume "k \<le> 2"
  then consider "k = 0" | "k = 1" | "k = 2" by linarith
  then show ?thesis by cases simp_all
qed

lemma fetch_none_after:
  assumes "k \<le> 2" and "retried client url (calls s) k"
    and "client (calls s + k) url = Response st b"
    and "st = 404 \<or> \<not> is_success st" and "k = 2 \<or> \<not> retryable st"
  shows "fetch_sha256 client url s =
     (Inr None, s\<lparr>calls := calls s + k + 1, slept := slept s @ take k [2, 4]\<rparr>)"
proof -
  let ?sk = "s\<lparr>calls := calls s + k, slept := slept s @ take k [2, 4]\<rparr>"
  obtain rest where d: "drop k [1, 2, 3::nat] = Suc k # rest"
    using drop_attempts[OF assms(1)] by blast
  have c: "client (calls ?sk) url = Response st b" using assms(3) by simp
  have n: "\<not> is_success st" using assms(4) by (auto simp: is_success_def)
  have l: "\<not> retryable st \<or> \<not> Suc k < 3" using assms(5) by auto
  have "fetch_attempts client url (Suc k # rest) ?sk =
      (Inr None, ?sk\<lparr>calls := Suc (calls ?sk)\<rparr>)"
    using c n l by (rule attempt_none)
  then show ?thesis unfolding retried_skip[OF assms(2,1)] d by simp
qed

lemma fetch_some_after:
  assumes "k \<le> 2" and "retried client url (calls s) k"
    and "client (calls s + k) url = Response st b"
    and "is_success st" and "py_split (strip b) = token # tokens"
  shows "fetch_sha256 client url s =
     (Inr (Some token), s\<lparr>calls := calls s + k + 1, slept := slept s @ take k [2, 4]\<rparr>)"
proof -
  let ?sk = "s\<lparr>calls := calls s + k, slept := slept s @ take k [2, 4]\<rparr>"
  obtain rest where d: "drop k [1, 2, 3::nat] = Suc k # rest"
    using drop_attempts[OF assms(1)] by blast
  have c: "client (calls ?sk) url = Response st b" using assms(3) by simp
  have "fetch_attempts client url (Suc k # rest) ?sk =
      (Inr (Some token), ?sk\<lparr>calls := Suc (calls ?sk)\<rparr>)"
    using c assms(4,5) by (rule attempt_some)
  then show ?thesis unfolding retried_skip[OF assms(2,1)] d by simp
qed

lemma fetch_raise_after:
  assumes "k \<le> 2" and "retried client url (calls s) k"
    and "client (calls s + k) url = TransportFailure"
  shows "fetch_sha256 client url s =
     (Inl TransportError, s\<lparr>calls := calls s + k + 1, slept := slept s @ take k [2, 4]\<rparr>)"
proof -
  let ?sk = "s\<lparr>calls := calls s + k, slept := slept s @ take k [2, 4]\<rparr>"
  obtain rest where d: "drop k [1, 2, 3::nat] = Suc k # rest"
    using drop_attempts[OF assms(1)] by blast
  have c: "client (calls ?sk) url = TransportFailure" using assms(3) by simp
  have "fetch_attempts client url (Suc k # rest) ?sk =
      (Inl TransportError, ?sk\<lparr>calls := Suc (calls ?sk)\<rparr>)"
    using c by (rule attempt_raise)
  then show ?thesis unfolding retried_skip[OF assms(2,1)] d by simp
qed


lemma endswith_last: "endswith s suf \<Longrightarrow> suf \<noteq> [] \<Longrightarrow> last s = last suf"
proof -
  assume e: "endswith s suf" and n: "suf \<noteq> []"
  have d: "drop (length s - length suf) s = suf" using e by (simp add: endswith_def)
  have "take (length s - length suf) s @ drop (length s - length suf) s = s"
    by (rule append_take_drop_id)
  then have "last s = last (take (length s - length suf) s @ suf)" unfolding d by simp
  then show ?thesis using n by simp
qed

lemma startswith_dash: "startswith s (p @ ''-'') \<Longrightarrow> CHR ''-'' \<in> set s"
proof -
  assume "startswith s (p @ ''-'')"
  then have "take (length (p @ ''-'')) s = p @ ''-''" by (simp add: startswith_def)
  then have "CHR ''-'' \<in> set (take (length (p @ ''-'')) s)" by simp
  then show ?thesis by (rule in_set_takeD)
qed

lemma archive_name_kept:
  assumes "startswith nm (p @ ''-'')" and "endswith nm ''.tar.gz'' \<or> endswith nm ''.zip''"
  shows "\<not> (\<not> startswith nm (p @ ''-'') \<or> endswith nm ''.sha256'' \<or> nm = ''source.tar.gz''
            \<or> nm = ''source.tar.gz.sha256'' \<or> nm = ''sha256.sum''
            \<or> endswith nm ''.sh'' \<or> endswith nm ''.ps1'')"
proof -
  have l: "last nm = CHR ''z'' \<or> last nm = CHR ''p''"
    using assms(2) endswith_last[of nm "''.tar.gz''"] endswith_last[of nm "''.zip''"] by auto
  have "\<not> endswith nm ''.sha256''" using l endswith_last[of nm "''.sha256''"] by auto
  moreover have "\<not> endswith nm ''.sh''" using l endswith_last[of nm "''.sh''"] by auto
  moreover have "\<not> endswith nm ''.ps1''" using l endswith_last[of nm "''.ps1''"] by auto
  moreover have "nm \<noteq> ''source.tar.gz.sha256''" using l by auto
  moreover have "nm \<noteq> ''sha256.sum''" using l by auto
  moreover have "nm \<noteq> ''source.tar.gz''" using startswith_dash[OF assms(1)] by auto
  ultimately show ?thesis using assms(1) by simp
qed

lemma process_archive:
  assumes "startswith nm (format_value str_other (app_name i) @ ''-'')"
    and "endswith nm ''.tar.gz'' \<or> endswith nm ''.zip''"
    and "py_len (app_name i) = Inr n"
  shows "\<exists>platform. process_artifact client str_other i (JStr nm) s =
           fetch_artifact client str_other i nm platform s"
proof -
  note k = archive_name_kept[OF assms(1,2)]
  show ?thesis
  proof (cases "endswith nm ''.tar.gz''")
    case True
    have "process_artifact client str_other i (JStr nm) s =
        fetch_artifact client str_other i nm (drop (n + 1) (take (length nm - 7) nm)) s"
      unfolding process_artifact_def using k True assms(3) by (simp add: Let_def)
    then show ?thesis by blast
  next
    case False
    then have z: "endswith nm ''.zip''" using assms(2) by simp
    have "process_artifact client str_other i (JStr nm) s =
        fetch_artifact client str_other i nm (drop (n + 1) (take (length nm - 4) nm)) s"
      unfolding process_artifact_def using k False z assms(3) by (simp add: Let_def)
    then show ?thesis by blast
  qed
qed

lemma loop_warns:
  assumes "startswith nm (format_value str_other (app_name i) @ ''-'')"
    and "endswith nm ''.tar.gz'' \<or> endswith nm ''.zip''"
    and "py_len (app_name i) = Inr n"
    and "fst (fetch_sha256 client (release_url str_other i nm @ ''.sha256'') s) = Inr None"
  shows "artifacts_loop client str_other i (JStr nm # rest) artifacts_data s =
     artifacts_loop client str_other i rest artifacts_data
       ((snd (fetch_sha256 client (release_url str_other i nm @ ''.sha256'') s))
          \<lparr>conv_stderr :=
             conv_stderr (snd (fetch_sha256 client (release_url str_other i nm @ ''.sha256'') s)) @
             [Warning nm]\<rparr>)"
proof -
  from process_archive[OF assms(1-3)] obtain platform where
    "process_artifact client str_other i (JStr nm) s =
       fetch_artifact client str_other i nm platform s"
    by blast
  then show ?thesis
    unfolding fetch_artifact_none[OF assms(4)] by simp
qed

lemma convert_two:
  assumes "client (calls s) sha256_url_darwin = Response st1 b1"
    and "st1 = 404 \<or> \<not> is_success st1" and "\<not> retryable st1"
    and "client (Suc (calls s)) sha256_url_uv =
      Response st2 ''deadbeef  uv-x86_64-unknown-linux-gnu.tar.gz''"
    and "is_success st2"
  shows "convert_main client str_other sort_other now plan_two s =
     (Exit0,
      s\<lparr>calls := calls s + 2,
        conv_stderr := conv_stderr s @
          [Extracting, Warning ''uv-aarch64-apple-darwin.tar.gz'',
           FoundVersion (JStr ''v1.0.0'') 1],
        conv_stdout := conv_stdout s @ [record_linux now]\<rparr>)"
proof -
  let ?s1 = "s\<lparr>conv_stderr := conv_stderr s @ [Extracting]\<rparr>"
  let ?i = "\<lparr>version = JStr ''v1.0.0'', github_org = JStr ''astral-sh'',
      github_repo = JStr ''uv'', app_name = JStr ''uv''\<rparr>"
  let ?s2 = "?s1\<lparr>calls := Suc (calls s),
      conv_stderr := conv_stderr ?s1 @ [Warning ''uv-aarch64-apple-darwin.tar.gz'']\<rparr>"
  have n1: "\<not> is_success st1" using assms(2) by (auto simp: is_success_def)
  have f1: "fetch_sha256 client sha256_url_darwin ?s1 =
      (Inr None, ?s1\<lparr>calls := Suc (calls ?s1)\<rparr>)"
    using assms(1,3) n1 by (simp add: fetch_sha256_def Let_def retryable_def)
  have u1: "release_url str_other ?i ''uv-aarch64-apple-darwin.tar.gz'' @ ''.sha256'' =
      sha256_url_darwin"
    by (simp add: release_url_def sha256_url_darwin_def)
  have fa1: "fetch_artifact client str_other ?i ''uv-aarch64-apple-darwin.tar.gz''
       ''aarch64-apple-darwin'' ?s1 = (Inr None, ?s2)"
    unfolding fetch_artifact_def u1 f1 by simp
  have p1: "process_artifact client str_other ?i (JStr ''uv-aarch64-apple-darwin.tar.gz'') ?s1 =
      fetch_artifact client str_other ?i ''uv-aarch64-apple-darwin.tar.gz''
       ''aarch64-apple-darwin'' ?s1"
    by (simp add: process_artifact_def startswith_def endswith_def)
  have c2: "client (calls ?s2) sha256_url_uv =
      Response st2 ''deadbeef  uv-x86_64-unknown-linux-gnu.tar.gz''"
    using assms(4) by simp
  have f2: "fetch_sha256 client sha256_url_uv ?s2 =
      (Inr (Some ''deadbeef''), ?s2\<lparr>calls := Suc (calls ?s2)\<rparr>)"
    unfolding fetch_success[where client = client and s = ?s2, OF c2 assms(5)] py_split_body
    by simp
  have u2: "release_url str_other ?i ''uv-x86_64-unknown-linux-gnu.tar.gz'' @ ''.sha256'' =
      sha256_url_uv"
    by (simp add: release_url_def sha256_url_uv_def)
  have fa2: "fetch_artifact client str_other ?i ''uv-x86_64-unknown-linux-gnu.tar.gz''
       ''x86_64-unknown-linux-gnu'' ?s2 =
      (Inr (Some (JObj
          [(''platform'', JStr ''x86_64-unknown-linux-gnu''),
           (''variant'', JStr ''default''),
           (''url'', JStr ''https://github.com/astral-sh/uv/releases/download/v1.0.0/uv-x86_64-unknown-linux-gnu.tar.gz''),
           (''archive_format'', JStr ''tar.gz''),
           (''sha256'', JStr ''deadbeef'')])), ?s2\<lparr>calls := Suc (calls ?s2)\<rparr>)"
    unfolding fetch_artifact_def u2 f2
    by (simp add: release_url_def get_archive_format_def endswith_def)
  have p2: "process_artifact client str_other ?i
       (JStr ''uv-x86_64-unknown-linux-gnu.tar.gz'') ?s2 =
      fetch_artifact client str_other ?i ''uv-x86_64-unknown-linux-gnu.tar.gz''
       ''x86_64-unknown-linux-gnu'' ?s2"
    by (simp add: process_artifact_def startswith_def endswith_def)
  have g: "extract_github_info manifest_two = Inr (JStr ''astral-sh'', JStr ''uv'', JStr ''uv'')"
    by (simp add: extract_github_info_def manifest_two_def get_or_empty_def)
  have loop: "artifacts_loop client str_other ?i
       [JStr ''uv-aarch64-apple-darwin.tar.gz'', JStr ''uv-x86_64-unknown-linux-gnu.tar.gz'']
       [] ?s1 =
      (Inr [JObj
          [(''platform'', JStr ''x86_64-unknown-linux-gnu''),
           (''variant'', JStr ''default''),
           (''url'', JStr ''https://github.com/astral-sh/uv/releases/download/v1.0.0/uv-x86_64-unknown-linux-gnu.tar.gz''),
           (''archive_format'', JStr ''tar.gz''),
           (''sha256'', JStr ''deadbeef'')]], ?s2\<lparr>calls := Suc (calls ?s2)\<rparr>)"
    by (simp only: artifacts_loop.simps p1 fa1 p2 fa2 prod.case sum.case option.case
        append_Nil)
  have x: "extract_version_info client str_other sort_other now manifest_two ?s1 =
      (Inr (record_linux now), ?s2\<lparr>calls := Suc (calls ?s2)\<rparr>)"
    unfolding extract_version_info_def g
    by (simp add: manifest_two_def get_or_empty_def loop sort_artifacts_def record_linux_def
        del: artifacts_loop.simps)
  show ?thesis
    unfolding convert_main_def by (simp add: plan_two_def x Let_def record_linux_def)
qed



section \<open>Outcomes of a checksum fetch\<close>

text \<open>
  Claim C7, as amended. Let the first \<open>k\<close> requests of a checksum fetch (\<open>k\<close> at most 2)
  each be answered with status 502, 503 or 504. The fetch sleeps after each of them, 2
  and then 4 seconds, and sends the next request. If that request is answered with 404,
  or with any other error status that is not 502, 503 or 504, or if it is the third
  request and is answered with any error status, the fetch gives "no checksum"; if it
  is answered with a success status, the fetch gives the first token of the body; if
  it gets no answer (connection failure, timeout), the exception is not caught and the
  fetch raises it. A fetch sends at least one and at most three requests. In the loop
  over artifacts, an archive whose fetch gives "no checksum" is not recorded, a warning
  naming it is printed, and the loop goes on with the remaining artifacts: for a
  release of two archives where the first checksum request is answered with 404 (or
  such an error status) and the second with the checksum, the run exits with status 0
  after two requests, having printed the warning and the record of the second archive.
\<close>

theorem checksum_fetch_outcomes:
  "(k \<le> 2 \<and> retried client url (calls s) k \<and>
    client (calls s + k) url = Response status_code body \<and>
    (status_code = 404 \<or> \<not> is_success status_code) \<and>
    (k = 2 \<or> \<not> retryable status_code) \<longrightarrow>
      fetch_sha256 client url s =
        (Inr None, s\<lparr>calls := calls s + k + 1, slept := slept s @ take k [2, 4]\<rparr>)) \<and>
   (k \<le> 2 \<and> retried client url (calls s) k \<and>
    client (calls s + k) url = Response status_code body \<and>
    is_success status_code \<and> py_split (strip body) = token # tokens \<longrightarrow>
      fetch_sha256 client url s =
        (Inr (Some token),
         s\<lparr>calls := calls s + k + 1, slept := slept s @ take k [2, 4]\<rparr>)) \<and>
   (k \<le> 2 \<and> retried client url (calls s) k \<and>
    client (calls s + k) url = TransportFailure \<longrightarrow>
      fetch_sha256 client url s =
        (Inl TransportError,
         s\<lparr>calls := calls s + k + 1, slept := slept s @ take k [2, 4]\<rparr>)) \<and>
   calls s < calls (snd (fetch_sha256 client url s)) \<and>
   calls (snd (fetch_sha256 client url s)) \<le> calls s + 3 \<and>
   slept (snd (fetch_sha256 client url s)) =
     slept s @ take (calls (snd (fetch_sha256 client url s)) - Suc (calls s)) [2, 4] \<and>
   (startswith nm (format_value str_other (app_name i) @ ''-'') \<and>
    (endswith nm ''.tar.gz'' \<or> endswith nm ''.zip'') \<and>
    py_len (app_name i) = Inr n \<and>
    fst (fetch_sha256 client (release_url str_other i nm @ ''.sha256'') s) = Inr None \<longrightarrow>
      artifacts_loop client str_other i (JStr nm # rest) artifacts_data s =
        artifacts_loop client str_other i rest artifacts_data
          ((snd (fetch_sha256 client (release_url str_other i nm @ ''.sha256'') s))
             \<lparr>conv_stderr :=
                conv_stderr
                  (snd (fetch_sha256 client (release_url str_other i nm @ ''.sha256'') s)) @
                [Warning nm]\<rparr>)) \<and>
   (client (calls s) sha256_url_darwin = Response st1 b1 \<and>
    (st1 = 404 \<or> \<not> is_success st1) \<and> \<not> retryable st1 \<and>
    client (Suc (calls s)) sha256_url_uv =
      Response st2 ''deadbeef  uv-x86_64-unknown-linux-gnu.tar.gz'' \<and>
    is_success st2 \<longrightarrow>
      convert_main client str_other sort_other now plan_two s =
        (Exit0,
         s\<lparr>calls := calls s + 2,
           conv_stderr := conv_stderr s @
             [Extracting, Warning ''uv-aarch64-apple-darwin.tar.gz'',
              FoundVersion (JStr ''v1.0.0'') 1],
           conv_stdout := conv_stdout s @ [record_linux now]\<rparr>))"
proof -
  have c1: "k \<le> 2 \<and> retried client url (calls s) k \<and>
    client (calls s + k) url = Response status_code body \<and>
    (status_code = 404 \<or> \<not> is_success status_code) \<and>
    (k = 2 \<or> \<not> retryable status_code) \<longrightarrow>
      fetch_sha256 client url s =
        (Inr None, s\<lparr>calls := calls s + k + 1, slept := slept s @ take k [2, 4]\<rparr>)"
    by (intro impI, elim conjE) (rule fetch_none_after)
  have c2: "k \<le> 2 \<and> retried client url (calls s) k \<and>
    client (calls s + k) url = Response status_code body \<and>
    is_success status_code \<and> py_split (strip body) = token # tokens \<longrightarrow>
      fetch_sha256 client url s =
        (Inr (Some token),
         s\<lparr>calls := calls s + k + 1, slept := slept s @ take k [2, 4]\<rparr>)"
    by (intro impI, elim conjE) (rule fetch_some_after)
  have c3: "k \<le> 2 \<and> retried client url (calls s) k \<and>
    client (calls s + k) url = TransportFailure \<longrightarrow>
      fetch_sha256 client url s =
        (Inl TransportError,
         s\<lparr>calls := calls s + k + 1, slept := slept s @ take k [2, 4]\<rparr>)"
    by (intro impI, elim conjE) (rule fetch_raise_after)
  have c4: "calls s < calls (snd (fetch_sha256 client url s))"
    and c5: "calls (snd (fetch_sha256 client url s)) \<le> calls s + 3"
    using fetch_attempts_bounds[of s client url "[1, 2, 3]"]
    by (simp_all add: fetch_sha256_def)
  have c6: "slept (snd (fetch_sha256 client url s)) =
     slept s @ take (calls (snd (fetch_sha256 client url s)) - Suc (calls s)) [2, 4]"
    by (rule fetch_slept)
  have c7: "startswith nm (format_value str_other (app_name i) @ ''-'') \<and>
    (endswith nm ''.tar.gz'' \<or> endswith nm ''.zip'') \<and>
    py_len (app_name i) = Inr n \<and>
    fst (fetch_sha256 client (release_url str_other i nm @ ''.sha256'') s) = Inr None \<longrightarrow>
      artifacts_loop client str_other i (JStr nm # rest) artifacts_data s =
        artifacts_loop client str_other i rest artifacts_data
          ((snd (fetch_sha256 client (release_url str_other i nm @ ''.sha256'') s))
             \<lparr>conv_stderr :=
                conv_stderr
                  (snd (fetch_sha256 client (release_url str_other i nm @ ''.sha256'') s)) @
                [Warning nm]\<rparr>)"
    by (intro impI, elim conjE) (rule loop_warns)
  have c8: "client (calls s) sha256_url_darwin = Response st1 b1 \<and>
    (st1 = 404 \<or> \<not> is_success st1) \<and> \<not> retryable st1 \<and>
    client (Suc (calls s)) sha256_url_uv =
      Response st2 ''deadbeef  uv-x86_64-unknown-linux-gnu.tar.gz'' \<and>
    is_success st2 \<longrightarrow>
      convert_main client str_other sort_other now plan_two s =
        (Exit0,
         s\<lparr>calls := calls s + 2,
           conv_stderr := conv_stderr s @
             [Extracting, Warning ''uv-aarch64-apple-darwin.tar.gz'',
              FoundVersion (JStr ''v1.0.0'') 1],
           conv_stdout := conv_stdout s @ [record_linux now]\<rparr>)"
    by (intro impI, elim conjE) (rule convert_two)
  show ?thesis using c1 c2 c3 c4 c5 c6 c7 c8 by (intro conjI) assumption+
qed

theorem checksum_fetch_outcomes_witness:
  "fetch_sha256 client_then_404 ''https://example.invalid/x.sha256'' state0 =
     (Inr None,
      state0\<lparr>calls := calls state0 + 1 + 1, slept := slept state0 @ take 1 [2, 4]\<rparr>) \<and>
   fetch_sha256 client_flaky ''https://example.invalid/x.sha256'' state0 =
     (Inr None,
      state0\<lparr>calls := calls state0 + 2 + 1, slept := slept state0 @ take 2 [2, 4]\<rparr>) \<and>
   fetch_sha256 client_recovers ''https://example.invalid/x.sha256'' state0 =
     (Inr (Some ''deadbeef''),
      state0\<lparr>calls := calls state0 + 1 + 1, slept := slept state0 @ take 1 [2, 4]\<rparr>) \<and>
   fetch_sha256 client_down ''https://example.invalid/x.sha256'' state0 =
     (Inl TransportError,
      state0\<lparr>calls := calls state0 + 0 + 1, slept := slept state0 @ take 0 [2, 4]\<rparr>) \<and>
   artifacts_loop client_deadbeef str_none info_uv
       [JStr ''uv-aarch64-apple-darwin.tar.gz'', JStr ''uv-x86_64-unknown-linux-gnu.tar.gz'']
       [] state0 =
     artifacts_loop client_deadbeef str_none info_uv
       [JStr ''uv-x86_64-unknown-linux-gnu.tar.gz''] []
       ((snd (fetch_sha256 client_deadbeef
           (release_url str_none info_uv ''uv-aarch64-apple-darwin.tar.gz'' @ ''.sha256'')
           state0))
          \<lparr>conv_stderr :=
             conv_stderr (snd (fetch_sha256 client_deadbeef
               (release_url str_none info_uv ''uv-aarch64-apple-darwin.tar.gz'' @ ''.sha256'')
               state0)) @
             [Warning ''uv-aarch64-apple-darwin.tar.gz'']\<rparr>) \<and>
   convert_main client_deadbeef str_none no_sort ''2024-01-01T00:00:00+00:00'' plan_two state0 =
     (Exit0,
      state0\<lparr>calls := calls state0 + 2,
        conv_stderr := conv_stderr state0 @
          [Extracting, Warning ''uv-aarch64-apple-darwin.tar.gz'',
           FoundVersion (JStr ''v1.0.0'') 1],
        conv_stdout := conv_stdout state0 @ [record_linux ''2024-01-01T00:00:00+00:00'']\<rparr>)"
proof -
  let ?u = "''https://example.invalid/x.sha256''"
  have h1: "(1::nat) \<le> 2 \<and> retried client_then_404 ?u (calls state0) 1 \<and>
      client_then_404 (calls state0 + 1) ?u = Response 404 ''Not Found'' \<and>
      (404 = (404::nat) \<or> \<not> is_success 404) \<and> ((1::nat) = 2 \<or> \<not> retryable 404)"
    by (simp add: client_then_404_def state0_def retryable_def)
  note w1 = checksum_fetch_outcomes[where client = client_then_404 and s = state0
      and url = ?u and k = 1 and status_code = 404 and body = "''Not Found''",
      THEN conjunct1, THEN mp, OF h1]
  have h2: "(2::nat) \<le> 2 \<and> retried client_flaky ?u (calls state0) 2 \<and>
      client_flaky (calls state0 + 2) ?u = Response 504 [] \<and>
      (504 = (404::nat) \<or> \<not> is_success 504) \<and> ((2::nat) = 2 \<or> \<not> retryable 504)"
    by (simp add: client_flaky_def state0_def retryable_def is_success_def numeral_2_eq_2)
  note w2 = checksum_fetch_outcomes[where client = client_flaky and s = state0
      and url = ?u and k = 2 and status_code = 504 and body = "[]",
      THEN conjunct1, THEN mp, OF h2]
  have h3: "(1::nat) \<le> 2 \<and> retried client_recovers ?u (calls state0) 1 \<and>
      client_recovers (calls state0 + 1) ?u = Response 200 ''deadbeef'' \<and>
      is_success 200 \<and> py_split (strip ''deadbeef'') = ''deadbeef'' # []"
    by (simp add: client_recovers_def state0_def retryable_def is_success_def py_split_def
        strip_def is_space_def)
  note w3 = checksum_fetch_outcomes[where client = client_recovers and s = state0
      and url = ?u and k = 1 and status_code = 200 and body = "''deadbeef''"
      and token = "''deadbeef''" and tokens = "[]",
      THEN conjunct2, THEN conjunct1, THEN mp, OF h3]
  have h4: "(0::nat) \<le> 2 \<and> retried client_down ?u (calls state0) 0 \<and>
      client_down (calls state0 + 0) ?u = TransportFailure"
    by (simp add: client_down_def)
  note w4 = checksum_fetch_outcomes[where client = client_down and s = state0
      and url = ?u and k = 0,
      THEN conjunct2, THEN conjunct2, THEN conjunct1, THEN mp, OF h4]
  have h7: "startswith ''uv-aarch64-apple-darwin.tar.gz''
        (format_value str_none (app_name info_uv) @ ''-'') \<and>
      (endswith ''uv-aarch64-apple-darwin.tar.gz'' ''.tar.gz'' \<or>
       endswith ''uv-aarch64-apple-darwin.tar.gz'' ''.zip'') \<and>
      py_len (app_name info_uv) = Inr 2 \<and>
      fst (fetch_sha256 client_deadbeef
        (release_url str_none info_uv ''uv-aarch64-apple-darwin.tar.gz'' @ ''.sha256'')
        state0) = Inr None"
    by (simp add: info_uv_def startswith_def endswith_def fetch_sha256_def
        client_deadbeef_def sha256_url_uv_def release_url_def)
  note w7 = checksum_fetch_outcomes[where client = client_deadbeef and s = state0
      and str_other = str_none and i = info_uv
      and nm = "''uv-aarch64-apple-darwin.tar.gz''" and n = 2
      and rest = "[JStr ''uv-x86_64-unknown-linux-gnu.tar.gz'']" and artifacts_data = "[]",
      THEN conjunct2, THEN conjunct2, THEN conjunct2, THEN conjunct2, THEN conjunct2,
      THEN conjunct2, THEN conjunct1, THEN mp, OF h7]
  have h8: "client_deadbeef (calls state0) sha256_url_darwin = Response 404 [] \<and>
      (404 = (404::nat) \<or> \<not> is_success 404) \<and> \<not> retryable 404 \<and>
      client_deadbeef (Suc (calls state0)) sha256_url_uv =
        Response 200 ''deadbeef  uv-x86_64-unknown-linux-gnu.tar.gz'' \<and>
      is_success 200"
    by (simp add: client_deadbeef_def sha256_url_uv_def sha256_url_darwin_def retryable_def
        is_success_def)
  note w8 = checksum_fetch_outcomes[where client = client_deadbeef and s = state0
      and ?st1.0 = 404 and ?b1.0 = "[]" and ?st2.0 = 200 and str_other = str_none
      and sort_other = no_sort and now = "''2024-01-01T00:00:00+00:00''",
      THEN conjunct2, THEN conjunct2, THEN conjunct2, THEN conjunct2, THEN conjunct2,
      THEN conjunct2, THEN conjunct2, THEN mp, OF h8]
  from w1 w2 w3 w4 w7 w8 show ?thesis by (intro conjI)
qed

text \<open>A request that gets no answer: the fetch raises, and the run on the uv scenario
  ends with the uncaught exception, with no warning and no record.\<close>

theorem transport_failure_counterexample:
  "client_down (calls state0) sha256_url_uv = TransportFailure \<and>
   fetch_sha256 client_down sha256_url_uv state0 =
     (Inl TransportError, state0\<lparr>calls := Suc (calls state0)\<rparr>) \<and>
   convert_main client_down str_none no_sort ''2024-01-01T00:00:00+00:00'' plan_uv state0 =
     (Uncaught TransportError,
      state0\<lparr>calls := Suc (calls state0),
        conv_stderr := conv_stderr state0 @ [Extracting, ConvTraceback TransportError]\<rparr>)"
  by (simp add: conv_simps client_down_def)

lemma loop_propagates:
  "fst (process_artifact client str_other i artifact s) = Inl e \<Longrightarrow>
   fst (artifacts_loop client str_other i (artifact # rest) artifacts_data s) = Inl e"
  by (cases "process_artifact client str_other i artifact s") simp

lemma fetch_blank:
  assumes "client (calls s) url = Response status_code body" and "is_success status_code"
    and "list_all is_space body"
  shows "fetch_sha256 client url s = (Inl IndexError, s\<lparr>calls := Suc (calls s)\<rparr>)"
  unfolding fetch_success[where client = client and s = s, OF assms(1,2)]
    all_space_split[OF assms(3)]
  by simp

lemma convert_blank:
  assumes "client (calls s) sha256_url_uv = Response status_code body"
    and "is_success status_code" and "list_all is_space body"
  shows "convert_main client str_other sort_other now plan_uv s =
     (Uncaught IndexError,
      s\<lparr>calls := Suc (calls s),
        conv_stderr := conv_stderr s @ [Extracting, ConvTraceback IndexError]\<rparr>)"
proof -
  let ?s1 = "s\<lparr>conv_stderr := conv_stderr s @ [Extracting]\<rparr>"
  let ?i = "\<lparr>version = JStr ''v1.0.0'', github_org = JStr ''astral-sh'',
      github_repo = JStr ''uv'', app_name = JStr ''uv''\<rparr>"
  have c: "client (calls ?s1) sha256_url_uv = Response status_code body"
    using assms(1) by simp
  have f: "fetch_sha256 client sha256_url_uv ?s1 =
      (Inl IndexError, ?s1\<lparr>calls := Suc (calls ?s1)\<rparr>)"
    using c assms(2,3) by (rule fetch_blank)
  have u: "release_url str_other ?i ''uv-x86_64-unknown-linux-gnu.tar.gz'' @ ''.sha256'' =
      sha256_url_uv"
    by (simp add: release_url_def sha256_url_uv_def)
  have fa: "fetch_artifact client str_other ?i ''uv-x86_64-unknown-linux-gnu.tar.gz''
       ''x86_64-unknown-linux-gnu'' ?s1 = (Inl IndexError, ?s1\<lparr>calls := Suc (calls ?s1)\<rparr>)"
    unfolding fetch_artifact_def u f by simp
  have p1: "process_artifact client str_other ?i
       (JStr ''uv-x86_64-unknown-linux-gnu.tar.gz'') ?s1 =
      fetch_artifact client str_other ?i ''uv-x86_64-unknown-linux-gnu.tar.gz''
       ''x86_64-unknown-linux-gnu'' ?s1"
    by (simp add: process_artifact_def startswith_def endswith_def)
  have g: "extract_github_info manifest_uv = Inr (JStr ''astral-sh'', JStr ''uv'', JStr ''uv'')"
    by (simp add: extract_github_info_def manifest_uv_def get_or_empty_def)
  have x: "extract_version_info client str_other sort_other now manifest_uv ?s1 =
      (Inl IndexError, ?s1\<lparr>calls := Suc (calls ?s1)\<rparr>)"
    unfolding extract_version_info_def g
    by (simp add: manifest_uv_def get_or_empty_def p1 fa)
  show ?thesis
    unfolding convert_main_def by (simp add: plan_uv_def x Let_def)
qed

section \<open>A checksum file with nothing in it\<close>

text \<open>
  Claim C9. When the answer to a checksum request has a success status and a body of
  white space only (or empty), \<^verbatim>\<open>fetch_sha256\<close> raises IndexError. An exception in
  one artifact's iteration ends the loop over artifacts with that exception. For the
  manifest of the uv scenario the run ends with the uncaught IndexError: it prints no
  warning and no record.
\<close>

theorem blank_checksum_body_aborts:
  "(client (calls s) url = Response status_code body \<and> is_success status_code \<and>
    list_all is_space body \<longrightarrow>
      fetch_sha256 client url s = (Inl IndexError, s\<lparr>calls := Suc (calls s)\<rparr>)) \<and>
   (fst (process_artifact client str_other i artifact s) = Inl e \<longrightarrow>
      fst (artifacts_loop client str_other i (artifact # rest) artifacts_data s) = Inl e) \<and>
   (client (calls s) sha256_url_uv = Response status_code body \<and> is_success status_code \<and>
    list_all is_space body \<longrightarrow>
      convert_main client str_other sort_other now plan_uv s =
        (Uncaught IndexError,
         s\<lparr>calls := Suc (calls s),
           conv_stderr := conv_stderr s @ [Extracting, ConvTraceback IndexError]\<rparr>))"
proof -
  have c1: "client (calls s) url = Response status_code body \<and> is_success status_code \<and>
    list_all is_space body \<longrightarrow>
      fetch_sha256 client url s = (Inl IndexError, s\<lparr>calls := Suc (calls s)\<rparr>)"
    by (intro impI, elim conjE) (rule fetch_blank)
  have c2: "fst (process_artifact client str_other i artifact s) = Inl e \<longrightarrow>
      fst (artifacts_loop client str_other i (artifact # rest) artifacts_data s) = Inl e"
    by (intro impI) (rule loop_propagates)
  have c3: "client (calls s) sha256_url_uv = Response status_code body \<and>
    is_success status_code \<and> list_all is_space body \<longrightarrow>
      convert_main client str_other sort_other now plan_uv s =
        (Uncaught IndexError,
         s\<lparr>calls := Suc (calls s),
           conv_stderr := conv_stderr s @ [Extracting, ConvTraceback IndexError]\<rparr>)"
    by (intro impI, elim conjE) (rule convert_blank)
  show ?thesis using c1 c2 c3 by (intro conjI) assumption+
qed

theorem blank_checksum_body_aborts_witness:
  "fetch_sha256 client_blank sha256_url_uv state0 =
     (Inl IndexError, state0\<lparr>calls := Suc (calls state0)\<rparr>) \<and>
   fst (artifacts_loop client_blank str_none info_uv
          [JStr ''uv-x86_64-unknown-linux-gnu.tar.gz'',
           JStr ''uv-aarch64-apple-darwin.tar.gz''] [] state0) = Inl IndexError \<and>
   convert_main client_blank str_none no_sort ''2024-01-01T00:00:00+00:00'' plan_uv state0 =
     (Uncaught IndexError,
      state0\<lparr>calls := Suc (calls state0),
        conv_stderr := conv_stderr state0 @ [Extracting, ConvTraceback IndexError]\<rparr>)"
proof -
  have h: "client_blank (calls state0) sha256_url_uv = Response 200 '' '' \<and> is_success 200 \<and>
      list_all is_space '' ''"
    by (simp add: client_blank_def is_success_def is_space_def)
  note w1 = blank_checksum_body_aborts[where client = client_blank and s = state0
      and url = sha256_url_uv and status_code = 200 and body = "'' ''",
      THEN conjunct1, THEN mp, OF h]
  have h2: "fst (process_artifact client_blank str_none info_uv
      (JStr ''uv-x86_64-unknown-linux-gnu.tar.gz'') state0) = Inl IndexError"
    by (simp add: conv_simps info_uv_def)
  note w2 = blank_checksum_body_aborts[where client = client_blank and s = state0
      and str_other = str_none and i = info_uv
      and artifact = "JStr ''uv-x86_64-unknown-linux-gnu.tar.gz''" and e = IndexError
      and rest = "[JStr ''uv-aarch64-apple-darwin.tar.gz'']" and artifacts_data = "[]",
      THEN conjunct2, THEN conjunct1, THEN mp, OF h2]
  note w3 = blank_checksum_body_aborts[where client = client_blank and s = state0
      and status_code = 200 and body = "'' ''" and str_other = str_none
      and sort_other = no_sort and now = "''2024-01-01T00:00:00+00:00''",
      THEN conjunct2, THEN conjunct2, THEN mp, OF h]
  from w1 w2 w3 show ?thesis by (intro conjI)
qed

end
